theory Spec2Isabelle
  imports Main "HOL-Library.Word" "HOL-Library.AList"
begin

section \<open>Python values\<close>

text \<open>
  The module \<^verbatim>\<open>discord/scheduled_event.py\<close> works on decoded JSON payloads, on
  exceptions and on objects that it shares by reference. Exceptions are values of
  \<open>error\<close>; a computation that may raise returns \<open>error + 'a\<close> with \<open>Inl\<close> the
  exception.
\<close>

datatype error = KeyError | TypeError | ValueError | AttributeError | HTTPException | Forbidden

datatype json =
    JNull
  | JBool bool
  | JInt int
  | JStr string
  | JArr "json list"
  | JObj "(string \<times> json) list"

text \<open>A payload is a \<^verbatim>\<open>dict\<close> with string keys.\<close>

type_synonym payload = "(string \<times> json) list"

definition bind_err :: "error + 'a \<Rightarrow> ('a \<Rightarrow> error + 'b) \<Rightarrow> error + 'b" where
  "bind_err m f = (case m of Inl e \<Rightarrow> Inl e | Inr v \<Rightarrow> f v)"

text \<open>Truth value of an object, as \<^verbatim>\<open>if x:\<close> and \<^verbatim>\<open>x or y\<close> test it.\<close>

fun truthy :: "json \<Rightarrow> bool" where
  "truthy JNull = False"
| "truthy (JBool b) = b"
| "truthy (JInt n) = (n \<noteq> 0)"
| "truthy (JStr s) = (s \<noteq> [])"
| "truthy (JArr xs) = (xs \<noteq> [])"
| "truthy (JObj kvs) = (kvs \<noteq> [])"

text \<open>\<^verbatim>\<open>data[key]\<close> on a dict raises \<^verbatim>\<open>KeyError\<close> on a missing key.\<close>

definition getitem :: "payload \<Rightarrow> string \<Rightarrow> error + json" where
  "getitem data key = (case map_of data key of None \<Rightarrow> Inl KeyError | Some v \<Rightarrow> Inr v)"

text \<open>\<^verbatim>\<open>data.get(key, default)\<close> on a dict never raises.\<close>

definition get_default :: "payload \<Rightarrow> string \<Rightarrow> json \<Rightarrow> json" where
  "get_default data key d = (case map_of data key of None \<Rightarrow> d | Some v \<Rightarrow> v)"

text \<open>
  \<^verbatim>\<open>v[key]\<close> and \<^verbatim>\<open>v.get(key)\<close> on a value that need not be a dict: subscripting
  something else with a string raises \<^verbatim>\<open>TypeError\<close>, and only a dict has \<^verbatim>\<open>get\<close>.
\<close>

fun subscript :: "json \<Rightarrow> string \<Rightarrow> error + json" where
  "subscript (JObj kvs) key = getitem kvs key"
| "subscript _ key = Inl TypeError"

fun json_get :: "json \<Rightarrow> string \<Rightarrow> error + json" where
  "json_get (JObj kvs) key = Inr (get_default kvs key JNull)"
| "json_get _ key = Inl AttributeError"

subsection \<open>The builtin \<^verbatim>\<open>int\<close>\<close>

definition is_space :: "char \<Rightarrow> bool" where
  "is_space c = (c \<in> set [CHR '' '', CHR 0x09, CHR 0x0A, CHR 0x0B, CHR 0x0C, CHR 0x0D])"

definition is_digit :: "char \<Rightarrow> bool" where
  "is_digit c = (48 \<le> (of_char c :: nat) \<and> (of_char c :: nat) \<le> 57)"

text \<open>
  Digits with single underscores between them, read from the left with the value so far
  in \<open>acc\<close>; \<open>prev\<close> says whether the previous character was a digit.
\<close>

fun digits :: "bool \<Rightarrow> nat \<Rightarrow> string \<Rightarrow> nat option" where
  "digits prev acc [] = (if prev then Some acc else None)"
| "digits prev acc (c # cs) =
     (if is_digit c then digits True (10 * acc + (of_char c - 48)) cs
      else if c = CHR ''_'' \<and> prev then digits False acc cs
      else None)"

definition strip :: "string \<Rightarrow> string" where
  "strip s = rev (dropWhile is_space (rev (dropWhile is_space s)))"

definition int_of_str :: "string \<Rightarrow> int option" where
  "int_of_str s =
     (case strip s of
        [] \<Rightarrow> None
      | c # cs \<Rightarrow>
          if c = CHR ''-'' then map_option (\<lambda>n. - int n) (digits False 0 cs)
          else if c = CHR ''+'' then map_option int (digits False 0 cs)
          else map_option int (digits False 0 (c # cs)))"

text \<open>
  \<^verbatim>\<open>int(v)\<close>: a string is parsed in base ten (\<^verbatim>\<open>ValueError\<close> when it is not a
  number), a bool is 0 or 1, and \<^verbatim>\<open>None\<close>, a list or a dict raise \<^verbatim>\<open>TypeError\<close>.
\<close>

fun py_int :: "json \<Rightarrow> error + int" where
  "py_int (JInt n) = Inr n"
| "py_int (JBool b) = Inr (if b then 1 else 0)"
| "py_int (JStr s) = (case int_of_str s of None \<Rightarrow> Inl ValueError | Some n \<Rightarrow> Inr n)"
| "py_int _ = Inl TypeError"

subsection \<open>Enumerations, timestamps and the missing-argument sentinel\<close>

datatype enum_cls = EntityType | PrivacyLevel | EventStatus

text \<open>
  Modelled from the spec: \<^verbatim>\<open>enums.py\<close> is not part of this file. The fields
  \<open>entity_type\<close>, \<open>privacy_level\<close> and \<open>status\<close> are "enumerated state" decoded from raw
  codes. A value of an enumeration, a member or the stand-in that \<^verbatim>\<open>try_enum\<close>
  makes for an unrecognised code, is its class together with the raw code it carries
  (its \<^verbatim>\<open>.value\<close>); two values are equal when both agree.
\<close>

datatype enum_val = EnumVal (enum_class: enum_cls) (enum_value: json)

definition try_enum :: "enum_cls \<Rightarrow> json \<Rightarrow> enum_val" where
  "try_enum cls val = EnumVal cls val"

text \<open>\<^verbatim>\<open>isinstance(v, cls)\<close> for a value of some enumeration.\<close>

definition isinstance :: "enum_val \<Rightarrow> enum_cls \<Rightarrow> bool" where
  "isinstance v cls = (enum_class v = cls)"

text \<open>
  A \<^verbatim>\<open>datetime\<close>: the wall-clock reading and the \<^verbatim>\<open>tzinfo\<close> attribute, \<open>None\<close> for a
  naive one (the offset in minutes otherwise).
\<close>

record datetime =
  wall :: int
  tzinfo :: "int option"

text \<open>
  An optional keyword argument: \<open>MISSING\<close> is the sentinel default of \<^verbatim>\<open>utils.py\<close>,
  which is distinct from \<^verbatim>\<open>None\<close> and false in a boolean test.
\<close>

datatype 'a arg = MISSING | Given 'a

section \<open>Objects\<close>

text \<open>
  The slots of a \<^verbatim>\<open>ScheduledEvent\<close>, in the order of \<^verbatim>\<open>__slots__\<close>. A slot that was
  never assigned is \<open>None\<close>, and reading it raises \<^verbatim>\<open>AttributeError\<close>. \<open>self_users\<close>
  holds a reference to a dict object, so that two events can share one dict.
\<close>

record 'u scheduled_event =
  self_state :: "nat option"
  self_users :: "nat option"
  self_id :: "int option"
  self_guild_id :: "int option"
  self_name :: "json option"
  self_description :: "json option"
  self_entity_type :: "enum_val option"
  self_entity_id :: "int option"
  self_start_time :: "datetime option option"
  self_end_time :: "datetime option option"
  self_privacy_level :: "enum_val option"
  self_status :: "enum_val option"
  self_cover_image :: "json option"
  self_user_count :: "json option"
  self_creator :: "'u option option"
  self_channel_id :: "json option"
  self_location :: "json option"

definition slots :: "string list" where
  "slots = [''_state'', ''_users'', ''id'', ''guild_id'', ''name'', ''description'',
     ''entity_type'', ''entity_id'', ''start_time'', ''end_time'', ''privacy_level'',
     ''status'', ''_cover_image'', ''user_count'', ''creator'', ''channel_id'', ''location'']"

definition new_event :: "'u scheduled_event" where
  "new_event = \<lparr> self_state = None, self_users = None, self_id = None, self_guild_id = None,
     self_name = None, self_description = None, self_entity_type = None,
     self_entity_id = None, self_start_time = None, self_end_time = None,
     self_privacy_level = None, self_status = None, self_cover_image = None,
     self_user_count = None, self_creator = None, self_channel_id = None,
     self_location = None \<rparr>"

text \<open>Reading a slot.\<close>

definition attr :: "'a option \<Rightarrow> error + 'a" where
  "attr slot = (case slot of None \<Rightarrow> Inl AttributeError | Some v \<Rightarrow> Inr v)"

text \<open>The requests the module sends through \<^verbatim>\<open>self._state.http\<close>.\<close>

datatype cursor = Before "int option" | After "int option"

datatype http_call =
    EditCall int int payload "string option"
  | UsersCall int int int bool cursor

text \<open>
  The world a method runs in: the connection state behind \<^verbatim>\<open>self._state\<close> (its user
  cache and the remote side, opaque here), the requests sent so far, and the store of
  event objects and of dict objects, each addressed by its index.
\<close>

record ('u, 's) world =
  conn :: 's
  http_calls :: "http_call list"
  events :: "'u scheduled_event list"
  dicts :: "(int \<rightharpoonup> 'u) list"

text \<open>
  The collaborators that are not part of this file, as parameters: the user cache and the
  HTTP client of the connection state, \<^verbatim>\<open>User.id\<close>, the ISO-8601 functions of
  \<^verbatim>\<open>datetime\<close>, \<^verbatim>\<open>utils._bytes_to_base64_data\<close>, the raw codes of
  \<^verbatim>\<open>EntityType.stage_instance\<close> and \<^verbatim>\<open>EntityType.voice\<close>, and the id of
  \<^verbatim>\<open>object.OLDEST_OBJECT\<close>.
\<close>

record ('u, 's) env =
  store_user :: "json \<Rightarrow> 's \<Rightarrow> (error + 'u) \<times> 's"
  user_id :: "'u \<Rightarrow> int"
  edit_scheduled_event :: "int \<Rightarrow> int \<Rightarrow> payload \<Rightarrow> string option \<Rightarrow> 's \<Rightarrow> (error + payload) \<times> 's"
  get_scheduled_event_users :: "int \<Rightarrow> int \<Rightarrow> int \<Rightarrow> bool \<Rightarrow> cursor \<Rightarrow> 's \<Rightarrow> (error + json list) \<times> 's"
  fromisoformat :: "string \<Rightarrow> error + datetime"
  isoformat :: "datetime \<Rightarrow> string"
  bytes_to_base64_data :: "8 word list \<Rightarrow> error + string"
  stage_instance :: json
  voice :: json
  OLDEST_OBJECT :: int

section \<open>The subscriber cache\<close>

text \<open>
  \<^verbatim>\<open>_add_user\<close>: \<^verbatim>\<open>self._users[user.id] = user\<close>. The dict that \<open>self._users\<close> refers
  to is updated in place.
\<close>

definition add_user :: "('u, 's) env \<Rightarrow> nat \<Rightarrow> 'u \<Rightarrow> ('u, 's) world \<Rightarrow> (error + unit) \<times> ('u, 's) world" where
  "add_user env self user w =
     (case attr (self_users (events w ! self)) of
        Inl e \<Rightarrow> (Inl e, w)
      | Inr d \<Rightarrow> (Inr (), w\<lparr>dicts := (dicts w)[d := (dicts w ! d)(user_id env user \<mapsto> user)]\<rparr>))"

text \<open>
  \<^verbatim>\<open>dict.pop(key)\<close> without a default: the value is removed and returned, and a key that
  is not there raises \<^verbatim>\<open>KeyError\<close>.
\<close>

definition dict_pop :: "('k \<rightharpoonup> 'v) \<Rightarrow> 'k \<Rightarrow> error + ('v \<times> ('k \<rightharpoonup> 'v))" where
  "dict_pop d k = (case d k of None \<Rightarrow> Inl KeyError | Some v \<Rightarrow> Inr (v, d(k := None)))"

text \<open>\<^verbatim>\<open>_pop_user\<close>: \<^verbatim>\<open>self._users.pop(user_id)\<close>; the popped user is dropped.\<close>

definition pop_user :: "nat \<Rightarrow> int \<Rightarrow> ('u, 's) world \<Rightarrow> (error + unit) \<times> ('u, 's) world" where
  "pop_user self uid w =
     (case attr (self_users (events w ! self)) of
        Inl e \<Rightarrow> (Inl e, w)
      | Inr d \<Rightarrow>
          (case dict_pop (dicts w ! d) uid of
             Inl e \<Rightarrow> (Inl e, w)
           | Inr (u, m) \<Rightarrow> (Inr (), w\<lparr>dicts := (dicts w)[d := m]\<rparr>)))"

section \<open>Hydration\<close>

text \<open>
  A method body is a sequence of statements over the state it changes; the first
  statement that raises ends it and leaves the state as it was at that point.
\<close>

type_synonym 'f stmt = "'f \<Rightarrow> error option \<times> 'f"

fun exec :: "'f stmt list \<Rightarrow> 'f stmt" where
  "exec [] f = (None, f)"
| "exec (c # cs) f = (case c f of (Some e, f') \<Rightarrow> (Some e, f') | (None, f') \<Rightarrow> exec cs f')"

text \<open>
  \<^verbatim>\<open>self.slot = rhs\<close>, for a right-hand side that reads the payload only. The state is
  the object together with the connection state.
\<close>

definition assign :: "('v \<Rightarrow> 'o \<Rightarrow> 'o) \<Rightarrow> error + 'v \<Rightarrow> ('o \<times> 's) stmt" where
  "assign upd rhs =
     (\<lambda>(self, s). case rhs of Inl e \<Rightarrow> (Some e, (self, s)) | Inr v \<Rightarrow> (None, (upd v self, s)))"

text \<open>
  Modelled from the spec: \<^verbatim>\<open>utils.parse_time\<close> is not part of this file. "start_time
  and end_time are parsed from ISO-8601 strings; absence of end_time yields the null
  case, not an error": a false argument gives \<^verbatim>\<open>None\<close>, a string goes through
  \<^verbatim>\<open>datetime.fromisoformat\<close>, which accepts strings only.
\<close>

definition parse_time :: "('u, 's) env \<Rightarrow> json \<Rightarrow> error + datetime option" where
  "parse_time env timestamp =
     (if truthy timestamp then
        (case timestamp of
           JStr s \<Rightarrow> bind_err (fromisoformat env s) (\<lambda>t. Inr (Some t))
         | _ \<Rightarrow> Inl TypeError)
      else Inr None)"

text \<open>
  Modelled from the spec: \<^verbatim>\<open>utils._get_as_snowflake\<close> is not part of this file.
  \<open>channel_id\<close> is an optional key whose absence is the null case, and ids are integers:
  a missing key gives \<^verbatim>\<open>None\<close>, a false value is kept, any other is converted with
  \<^verbatim>\<open>int\<close>.
\<close>

definition get_as_snowflake :: "payload \<Rightarrow> string \<Rightarrow> error + json" where
  "get_as_snowflake data key =
     (case map_of data key of
        None \<Rightarrow> Inr JNull
      | Some v \<Rightarrow> if truthy v then bind_err (py_int v) (\<lambda>n. Inr (JInt n)) else Inr v)"

text \<open>\<^verbatim>\<open>_unroll_metadata\<close>: \<^verbatim>\<open>self.location = data.get('location')\<close>.\<close>

definition unroll_metadata :: "json \<Rightarrow> ('u scheduled_event \<times> 's) stmt" where
  "unroll_metadata data = assign (\<lambda>v self. self\<lparr>self_location := Some v\<rparr>) (json_get data ''location'')"

text \<open>
  \<^verbatim>\<open>_update\<close>, one statement for each assignment of the source, in its order. The
  creator is resolved through the user cache of the connection state, which may change
  it; the metadata is unrolled only when the key \<^verbatim>\<open>'metadata'\<close> holds a true value.
\<close>

definition event_update :: "('u, 's) env \<Rightarrow> payload \<Rightarrow> ('u scheduled_event \<times> 's) stmt" where
  "event_update env data = exec [
     assign (\<lambda>v self. self\<lparr>self_id := Some v\<rparr>) (bind_err (getitem data ''id'') py_int),
     assign (\<lambda>v self. self\<lparr>self_guild_id := Some v\<rparr>) (bind_err (getitem data ''guild_id'') py_int),
     assign (\<lambda>v self. self\<lparr>self_name := Some v\<rparr>) (getitem data ''name''),
     assign (\<lambda>v self. self\<lparr>self_description := Some v\<rparr>)
       (Inr (get_default data ''description'' (JStr []))),
     assign (\<lambda>v self. self\<lparr>self_entity_type := Some v\<rparr>)
       (bind_err (getitem data ''entity_type'') (\<lambda>v. Inr (try_enum EntityType v))),
     assign (\<lambda>v self. self\<lparr>self_entity_id := Some v\<rparr>) (bind_err (getitem data ''id'') py_int),
     assign (\<lambda>v self. self\<lparr>self_start_time := Some v\<rparr>)
       (bind_err (getitem data ''scheduled_start_time'') (parse_time env)),
     assign (\<lambda>v self. self\<lparr>self_privacy_level := Some v\<rparr>)
       (bind_err (getitem data ''status'') (\<lambda>v. Inr (try_enum PrivacyLevel v))),
     assign (\<lambda>v self. self\<lparr>self_status := Some v\<rparr>)
       (bind_err (getitem data ''status'') (\<lambda>v. Inr (try_enum EventStatus v))),
     assign (\<lambda>v self. self\<lparr>self_cover_image := Some v\<rparr>) (getitem data ''image''),
     assign (\<lambda>v self. self\<lparr>self_user_count := Some v\<rparr>)
       (Inr (get_default data ''user_count'' (JInt 0))),
     (\<lambda>(self, s).
        let creator = get_default data ''creator'' JNull in
        if truthy creator then
          (case store_user env creator s of
             (Inl e, s') \<Rightarrow> (Some e, (self, s'))
           | (Inr u, s') \<Rightarrow> (None, (self\<lparr>self_creator := Some (Some u)\<rparr>, s')))
        else (None, (self\<lparr>self_creator := Some None\<rparr>, s))),
     assign (\<lambda>v self. self\<lparr>self_end_time := Some v\<rparr>)
       (parse_time env (get_default data ''scheduled_end_time'' JNull)),
     assign (\<lambda>v self. self\<lparr>self_channel_id := Some v\<rparr>) (get_as_snowflake data ''channel_id''),
     (\<lambda>f.
        let metadata = get_default data ''metadata'' JNull in
        if truthy metadata then unroll_metadata metadata f else (None, f))]"

text \<open>
  \<^verbatim>\<open>__init__\<close>: a new object at a fresh address with \<open>_state\<close> set and \<open>_users\<close> a new
  empty dict, then \<^verbatim>\<open>_update\<close>. When that raises, the caller gets the exception and no
  reference to the object.
\<close>

definition init :: "('u, 's) env \<Rightarrow> nat \<Rightarrow> payload \<Rightarrow> ('u, 's) world \<Rightarrow> (error + nat) \<times> ('u, 's) world" where
  "init env state data w =
     (let s = length (events w);
          d = length (dicts w);
          obj = new_event\<lparr>self_state := Some state, self_users := Some d\<rparr>
      in case event_update env data (obj, conn w) of
           (r, (obj', c)) \<Rightarrow>
             ((case r of Some e \<Rightarrow> Inl e | None \<Rightarrow> Inr s),
              w\<lparr>conn := c, events := events w @ [obj'], dicts := dicts w @ [Map.empty]\<rparr>))"

section \<open>The channel accessor\<close>

text \<open>
  The names an instance can resolve: its slots, what the class body defines, and what it
  inherits. The base class \<^verbatim>\<open>Hashable\<close> is not part of this file; the class docstring
  lists its operations: \<^verbatim>\<open>x == y\<close>, \<^verbatim>\<open>x != y\<close> and \<^verbatim>\<open>hash(x)\<close>. A slotted instance has
  no other attributes.
\<close>

definition class_body :: "string list" where
  "class_body = [''__slots__'', ''__init__'', ''_update'', ''_unroll_metadata'',
     ''from_creation'', ''__repr__'', ''cover_image'', ''channel'', ''start'', ''end'',
     ''cancel'', ''edit'', ''delete'', ''users'', ''_add_user'', ''_pop_user'']"

definition hashable_members :: "string list" where
  "hashable_members = [''__eq__'', ''__ne__'', ''__hash__'']"

definition resolves :: "string \<Rightarrow> bool" where
  "resolves attribute = (attribute \<in> set (slots @ class_body @ hashable_members))"

text \<open>
  \<^verbatim>\<open>channel\<close>: \<^verbatim>\<open>return self.guild.get_channel(self.channel_id)\<close>. The parent
  container \<open>guild\<close> and its registry lookup \<open>get_channel\<close> are parameters: they are what
  the expression would use if the name \<^verbatim>\<open>guild\<close> resolved on the instance.
\<close>

definition channel :: "'g \<Rightarrow> ('g \<Rightarrow> json \<Rightarrow> 'c option) \<Rightarrow> 'u scheduled_event \<Rightarrow> error + 'c option" where
  "channel guild get_channel self =
     (if resolves ''guild'' then
        bind_err (attr (self_channel_id self)) (\<lambda>channel_id. Inr (get_channel guild channel_id))
      else Inl AttributeError)"

section \<open>Editing\<close>

text \<open>
  The keyword arguments of \<^verbatim>\<open>edit\<close>. An argument of an enumeration type is a value of
  some enumeration, so that \<^verbatim>\<open>isinstance\<close> can fail; \<open>channel\<close> is an optional object
  with an \<open>id\<close>, \<open>location\<close> an optional string.
\<close>

record edit_args =
  arg_name :: "string arg"
  arg_description :: "string arg"
  arg_channel :: "int option arg"
  arg_start_time :: "datetime arg"
  arg_end_time :: "datetime arg"
  arg_privacy_level :: "enum_val arg"
  arg_entity_type :: "enum_val arg"
  arg_status :: "enum_val arg"
  arg_image :: "8 word list arg"
  arg_location :: "string option arg"
  arg_reason :: "string option"

definition no_args :: edit_args where
  "no_args = \<lparr> arg_name = MISSING, arg_description = MISSING, arg_channel = MISSING,
     arg_start_time = MISSING, arg_end_time = MISSING, arg_privacy_level = MISSING,
     arg_entity_type = MISSING, arg_status = MISSING, arg_image = MISSING,
     arg_location = MISSING, arg_reason = None \<rparr>"

text \<open>Statements over the two dicts \<open>payload\<close> and \<open>metadata\<close> that \<^verbatim>\<open>edit\<close> builds.\<close>

definition raise_if :: "bool \<Rightarrow> error \<Rightarrow> 'f stmt" where
  "raise_if c e = (\<lambda>f. if c then (Some e, f) else (None, f))"

definition set_payload :: "string \<Rightarrow> json \<Rightarrow> (payload \<times> payload) stmt" where
  "set_payload key v = (\<lambda>(payload, metadata). (None, (AList.update key v payload, metadata)))"

definition set_metadata :: "string \<Rightarrow> json \<Rightarrow> (payload \<times> payload) stmt" where
  "set_metadata key v = (\<lambda>(payload, metadata). (None, (payload, AList.update key v metadata)))"

text \<open>
  The first part of \<^verbatim>\<open>edit\<close>, up to the request: the checks and the payload, in the
  order of the source. \<open>self\<close> is read for \<^verbatim>\<open>self.entity_type\<close> only, and only when
  no \<open>entity_type\<close> is given.
\<close>

definition edit_payload :: "('u, 's) env \<Rightarrow> 'u scheduled_event \<Rightarrow> edit_args \<Rightarrow> error + payload" where
  "edit_payload env self a =
     (case exec [
        (case arg_name a of MISSING \<Rightarrow> exec []
         | Given name \<Rightarrow> set_payload ''name'' (JStr name)),
        (case arg_start_time a of MISSING \<Rightarrow> exec []
         | Given start_time \<Rightarrow> exec [
             raise_if (tzinfo start_time = None) ValueError,
             set_payload ''scheduled_start_time'' (JStr (isoformat env start_time))]),
        (case arg_description a of MISSING \<Rightarrow> exec []
         | Given description \<Rightarrow> set_payload ''description'' (JStr description)),
        (case arg_privacy_level a of MISSING \<Rightarrow> exec []
         | Given privacy_level \<Rightarrow> exec [
             raise_if (\<not> isinstance privacy_level PrivacyLevel) TypeError,
             set_payload ''privacy_level'' (enum_value privacy_level)]),
        (case arg_status a of MISSING \<Rightarrow> exec []
         | Given status \<Rightarrow> exec [
             raise_if (\<not> isinstance status EventStatus) TypeError,
             set_payload ''status'' (enum_value status)]),
        (case arg_image a of MISSING \<Rightarrow> exec []
         | Given image_bytes \<Rightarrow>
             (case bytes_to_base64_data env image_bytes of
                Inl e \<Rightarrow> raise_if True e
              | Inr image_as_str \<Rightarrow> set_payload ''image'' (JStr image_as_str))),
        (case arg_entity_type a of MISSING \<Rightarrow> exec []
         | Given entity_type \<Rightarrow> exec [
             raise_if (\<not> isinstance entity_type EntityType) TypeError,
             set_payload ''entity_type'' (enum_value entity_type)]),
        (case (case arg_entity_type a of
                 MISSING \<Rightarrow> attr (self_entity_type self)
               | Given entity_type \<Rightarrow> Inr entity_type) of
           Inl e \<Rightarrow> raise_if True e
         | Inr entity_type' \<Rightarrow>
             if entity_type' \<in> set [EnumVal EntityType (stage_instance env),
                                     EnumVal EntityType (voice env)] then
               (case arg_channel a of
                  MISSING \<Rightarrow> raise_if True TypeError
                | Given None \<Rightarrow> raise_if True TypeError
                | Given (Some channel_id) \<Rightarrow> exec [
                    set_payload ''channel_id'' (JInt channel_id),
                    raise_if (arg_location a \<noteq> MISSING) TypeError])
             else exec [
               raise_if (arg_channel a \<noteq> MISSING) TypeError,
               (case arg_location a of
                  MISSING \<Rightarrow> raise_if True TypeError
                | Given None \<Rightarrow> raise_if True TypeError
                | Given (Some location) \<Rightarrow> set_metadata ''location'' (JStr location)),
               (case arg_end_time a of
                  MISSING \<Rightarrow> raise_if True TypeError
                | Given end_time \<Rightarrow> exec [
                    raise_if (tzinfo end_time = None) ValueError,
                    set_payload ''scheduled_end_time'' (JStr (isoformat env end_time))])]),
        (\<lambda>(payload, metadata).
           if metadata \<noteq> [] then set_payload ''entity_metadata'' (JObj metadata) (payload, metadata)
           else (None, (payload, metadata)))]
        ([], []) of
        (Some e, f) \<Rightarrow> Inl e
      | (None, (payload, metadata)) \<Rightarrow> Inr payload)"

text \<open>
  \<^verbatim>\<open>edit\<close>: the payload, then the request through the HTTP client (recorded in
  \<open>http_calls\<close>), then a new \<^verbatim>\<open>ScheduledEvent\<close> from the response, whose \<open>_users\<close> is
  set to the reference held by \<open>self._users\<close>. The result is the address of the new
  object.
\<close>

definition edit :: "('u, 's) env \<Rightarrow> nat \<Rightarrow> edit_args \<Rightarrow> ('u, 's) world \<Rightarrow> (error + nat) \<times> ('u, 's) world" where
  "edit env self a w =
     (case edit_payload env (events w ! self) a of
        Inl e \<Rightarrow> (Inl e, w)
      | Inr payload \<Rightarrow>
          (case bind_err (attr (self_state (events w ! self))) (\<lambda>state.
                bind_err (attr (self_guild_id (events w ! self))) (\<lambda>guild_id.
                bind_err (attr (self_id (events w ! self))) (\<lambda>event_id.
                Inr (state, guild_id, event_id)))) of
             Inl e \<Rightarrow> (Inl e, w)
           | Inr (state, guild_id, event_id) \<Rightarrow>
               (case edit_scheduled_event env guild_id event_id payload (arg_reason a) (conn w) of
                  (r, c) \<Rightarrow>
                    let w1 = w\<lparr>conn := c,
                      http_calls := http_calls w @ [EditCall guild_id event_id payload (arg_reason a)]\<rparr>
                    in (case r of
                          Inl e \<Rightarrow> (Inl e, w1)
                        | Inr data \<Rightarrow>
                            (case init env state data w1 of
                               (Inl e, w2) \<Rightarrow> (Inl e, w2)
                             | (Inr s, w2) \<Rightarrow>
                                 (case attr (self_users (events w2 ! self)) of
                                    Inl e \<Rightarrow> (Inl e, w2)
                                  | Inr d \<Rightarrow>
                                      (Inr s, w2\<lparr>events :=
                                         (events w2)[s := (events w2 ! s)\<lparr>self_users := Some d\<rparr>]\<rparr>)))))))"

section \<open>The subscriber paginator\<close>

text \<open>
  A boundary (\<open>before\<close>, \<open>after\<close>, the cursor state) is an object with an \<open>id\<close>, or
  \<^verbatim>\<open>None\<close>: here the id, or \<open>None\<close>. Such an object is true in a boolean test.

  Modelled from the spec: \<^verbatim>\<open>object.py\<close> is not part of this file. A cursor is "an
  opaque id-bearing boundary marker", advanced "to the last (backward) or first (forward)
  element's user id": \<^verbatim>\<open>Object(id=v)\<close> holds \<^verbatim>\<open>int(v)\<close>.
\<close>

definition Object :: "json \<Rightarrow> error + int" where
  "Object v = py_int v"

text \<open>
  The two client-side filters, \<^verbatim>\<open>lambda u: u['user']['id'] < before.id\<close> and
  \<^verbatim>\<open>lambda u: u['user']['id'] > after.id\<close>. Ordering a value against an \<^verbatim>\<open>int\<close> is
  defined for numbers and raises \<^verbatim>\<open>TypeError\<close> for anything else.
\<close>

datatype predicate = IdLess int | IdGreater int

fun as_number :: "json \<Rightarrow> error + int" where
  "as_number (JInt n) = Inr n"
| "as_number (JBool b) = Inr (if b then 1 else 0)"
| "as_number _ = Inl TypeError"

definition apply_predicate :: "predicate \<Rightarrow> json \<Rightarrow> error + bool" where
  "apply_predicate p u =
     bind_err (subscript u ''user'') (\<lambda>user.
     bind_err (subscript user ''id'') (\<lambda>i.
     bind_err (as_number i) (\<lambda>n.
     Inr (case p of IdLess b \<Rightarrow> n < b | IdGreater a \<Rightarrow> n > a))))"

text \<open>
  \<^verbatim>\<open>_before_strategy\<close> and \<^verbatim>\<open>_after_strategy\<close>: one request for up to \<open>retrieve\<close>
  records, with the boundary passed as \<open>before\<close> or as \<open>after\<close>. A batch that is not empty
  lowers the remaining limit and moves the boundary to its last, or first, record.
\<close>

definition request_users ::
  "('u, 's) env \<Rightarrow> nat \<Rightarrow> int \<Rightarrow> cursor \<Rightarrow> ('u, 's) world \<Rightarrow> (error + json list) \<times> ('u, 's) world" where
  "request_users env self retrieve c w =
     (case bind_err (attr (self_state (events w ! self))) (\<lambda>state.
           bind_err (attr (self_guild_id (events w ! self))) (\<lambda>guild_id.
           bind_err (attr (self_id (events w ! self))) (\<lambda>event_id.
           Inr (guild_id, event_id)))) of
        Inl e \<Rightarrow> (Inl e, w)
      | Inr (guild_id, event_id) \<Rightarrow>
          (case get_scheduled_event_users env guild_id event_id retrieve False c (conn w) of
             (r, s) \<Rightarrow>
               (r, w\<lparr>conn := s,
                     http_calls := http_calls w @ [UsersCall guild_id event_id retrieve False c]\<rparr>)))"

definition before_strategy ::
  "('u, 's) env \<Rightarrow> nat \<Rightarrow> int \<Rightarrow> int option \<Rightarrow> int option \<Rightarrow> ('u, 's) world
     \<Rightarrow> (error + json list \<times> int option \<times> int option) \<times> ('u, 's) world" where
  "before_strategy env self retrieve before limit w =
     (let before_id = before in
      case request_users env self retrieve (Before before_id) w of
        (Inl e, w1) \<Rightarrow> (Inl e, w1)
      | (Inr users, w1) \<Rightarrow>
          if users \<noteq> [] then
            (case bind_err (subscript (last users) ''user'') (\<lambda>user.
                  bind_err (subscript user ''id'') Object) of
               Inl e \<Rightarrow> (Inl e, w1)
             | Inr b \<Rightarrow> (Inr (users, Some b, map_option (\<lambda>l. l - int (length users)) limit), w1))
          else (Inr (users, before, limit), w1))"

definition after_strategy ::
  "('u, 's) env \<Rightarrow> nat \<Rightarrow> int \<Rightarrow> int option \<Rightarrow> int option \<Rightarrow> ('u, 's) world
     \<Rightarrow> (error + json list \<times> int option \<times> int option) \<times> ('u, 's) world" where
  "after_strategy env self retrieve after limit w =
     (let after_id = after in
      case request_users env self retrieve (After after_id) w of
        (Inl e, w1) \<Rightarrow> (Inl e, w1)
      | (Inr users, w1) \<Rightarrow>
          if users \<noteq> [] then
            (case bind_err (subscript (hd users) ''user'') (\<lambda>user.
                  bind_err (subscript user ''id'') Object) of
               Inl e \<Rightarrow> (Inl e, w1)
             | Inr a \<Rightarrow> (Inr (users, Some a, map_option (\<lambda>l. l - int (length users)) limit), w1))
          else (Inr (users, after, limit), w1))"

text \<open>
  The direction and the filter. Two boundary objects are compared by their ids, so
  \<^verbatim>\<open>after != OLDEST_OBJECT\<close> is a comparison with the id of \<^verbatim>\<open>OLDEST_OBJECT\<close>.
\<close>

definition direction :: "bool arg \<Rightarrow> int option \<Rightarrow> bool" where
  "direction oldest_first after =
     (case oldest_first of MISSING \<Rightarrow> after \<noteq> None | Given b \<Rightarrow> b)"

definition client_filter :: "('u, 's) env \<Rightarrow> bool \<Rightarrow> int option \<Rightarrow> int option \<Rightarrow> predicate option" where
  "client_filter env reverse before after =
     (if reverse then
        (case before of None \<Rightarrow> None | Some b \<Rightarrow> Some (IdLess b))
      else
        (case after of
           None \<Rightarrow> None
         | Some a \<Rightarrow> if a \<noteq> OLDEST_OBJECT env then Some (IdGreater a) else None))"

text \<open>
  The records of one batch, filtered, resolved through the user cache and yielded, one
  at a time: the filter and the cache see a record only when the records before it have
  been yielded. The result is the exception that ended the batch, if any, and the users
  yielded.
\<close>

fun yield_users ::
  "('u, 's) env \<Rightarrow> predicate option \<Rightarrow> json list \<Rightarrow> ('u, 's) world
     \<Rightarrow> error option \<times> 'u list \<times> ('u, 's) world" where
  "yield_users env p [] w = (None, [], w)"
| "yield_users env p (raw_user # data) w =
     (case (case p of None \<Rightarrow> Inr True | Some q \<Rightarrow> apply_predicate q raw_user) of
        Inl e \<Rightarrow> (Some e, [], w)
      | Inr False \<Rightarrow> yield_users env p data w
      | Inr True \<Rightarrow>
          (case subscript raw_user ''user'' of
             Inl e \<Rightarrow> (Some e, [], w)
           | Inr u \<Rightarrow>
               (case store_user env u (conn w) of
                  (Inl e, s) \<Rightarrow> (Some e, [], w\<lparr>conn := s\<rparr>)
                | (Inr user, s) \<Rightarrow>
                    (case yield_users env p data (w\<lparr>conn := s\<rparr>) of
                       (r, ys, w') \<Rightarrow> (r, user # ys, w')))))"

text \<open>
  The \<^verbatim>\<open>while True\<close> loop, consumed to its end. It need not end (a server may return
  full batches for ever), so it runs on fuel: one unit for each iteration, and
  \<open>Unfinished\<close> with what was yielded so far when the fuel is used up.
\<close>

datatype outcome = Returned | Raised error | Unfinished

fun users_loop ::
  "nat \<Rightarrow> ('u, 's) env \<Rightarrow> nat \<Rightarrow> bool \<Rightarrow> predicate option \<Rightarrow> int option \<Rightarrow> int option
     \<Rightarrow> ('u, 's) world \<Rightarrow> outcome \<times> 'u list \<times> ('u, 's) world" where
  "users_loop 0 env self reverse predicate state limit w = (Unfinished, [], w)"
| "users_loop (Suc fuel) env self reverse predicate state limit w =
     (let retrieve = min (case limit of None \<Rightarrow> 100 | Some l \<Rightarrow> l) 100 in
      if retrieve < 1 then (Returned, [], w)
      else
        (case (if reverse then after_strategy else before_strategy) env self retrieve state limit w of
           (Inl e, w1) \<Rightarrow> (Raised e, [], w1)
         | (Inr (data, state', limit'), w1) \<Rightarrow>
             (case yield_users env predicate (if reverse then rev data else data) w1 of
                (Some e, ys, w2) \<Rightarrow> (Raised e, ys, w2)
              | (None, ys, w2) \<Rightarrow>
                  (case users_loop fuel env self reverse predicate state'
                          (if length data < 100 then Some 0 else limit') w2 of
                     (r, zs, w3) \<Rightarrow> (r, ys @ zs, w3)))))"

text \<open>
  \<^verbatim>\<open>users\<close>. Without a limit, the limit is \<^verbatim>\<open>self.user_count or None\<close>; a count that
  is true but not a number makes the first \<^verbatim>\<open>min\<close> raise \<^verbatim>\<open>TypeError\<close>.
\<close>

definition users ::
  "nat \<Rightarrow> ('u, 's) env \<Rightarrow> nat \<Rightarrow> int option \<Rightarrow> int option \<Rightarrow> int option \<Rightarrow> bool arg
     \<Rightarrow> ('u, 's) world \<Rightarrow> outcome \<times> 'u list \<times> ('u, 's) world" where
  "users fuel env self limit before after oldest_first w =
     (case (case limit of
              Some l \<Rightarrow> Inr (Some l)
            | None \<Rightarrow>
                bind_err (attr (self_user_count (events w ! self))) (\<lambda>user_count.
                  if truthy user_count then bind_err (as_number user_count) (\<lambda>n. Inr (Some n))
                  else Inr None)) of
        Inl e \<Rightarrow> (Raised e, [], w)
      | Inr limit' \<Rightarrow>
          (let reverse = direction oldest_first after;
               predicate = client_filter env reverse before after
           in users_loop fuel env self reverse predicate
                (if reverse then after else before) limit' w))"

section \<open>A mock connection\<close>

text \<open>
  A connection for running the methods on concrete inputs. A user is its id, and the
  cache is the list of the ids seen; the transport answers an edit with a fixed reply and
  a subscriber request with the next batch of a script, whatever the request says.
  Timestamps are written as decimal numbers, all in UTC.
\<close>

record mock_conn =
  cache :: "int list"
  reply :: "error + payload"
  script :: "json list list"

definition mock_store_user :: "json \<Rightarrow> mock_conn \<Rightarrow> (error + int) \<times> mock_conn" where
  "mock_store_user data s =
     (case bind_err (subscript data ''id'') py_int of
        Inl e \<Rightarrow> (Inl e, s)
      | Inr n \<Rightarrow> (Inr n, if n \<in> set (cache s) then s else s\<lparr>cache := n # cache s\<rparr>))"

definition mock_env :: "(int, mock_conn) env" where
  "mock_env = \<lparr>
     store_user = mock_store_user,
     user_id = (\<lambda>u. u),
     edit_scheduled_event = (\<lambda>guild_id event_id payload reason s. (reply s, s)),
     get_scheduled_event_users = (\<lambda>guild_id event_id limit with_member c s.
        case script s of [] \<Rightarrow> (Inr [], s) | b # bs \<Rightarrow> (Inr b, s\<lparr>script := bs\<rparr>)),
     fromisoformat = (\<lambda>s. case int_of_str s of
        None \<Rightarrow> Inl ValueError | Some n \<Rightarrow> Inr \<lparr>wall = n, tzinfo = Some 0\<rparr>),
     isoformat = (\<lambda>t. if tzinfo t = None then ''naive'' else ''aware''),
     bytes_to_base64_data = (\<lambda>bs. Inr []),
     stage_instance = JInt 1,
     voice = JInt 2,
     OLDEST_OBJECT = 0 \<rparr>"

text \<open>
  A payload with the required keys only, for an event of an external location; the same
  with a channel, for a voice event; and a world that holds one hydrated event of each
  kind, with separate subscriber dicts.
\<close>

definition external_payload :: payload where
  "external_payload = [(''id'', JStr ''10''), (''guild_id'', JStr ''20''),
     (''name'', JStr ''Picnic''), (''entity_type'', JInt 3),
     (''scheduled_start_time'', JStr ''1000''), (''status'', JInt 1), (''image'', JNull)]"

definition voice_payload :: payload where
  "voice_payload = [(''id'', JStr ''11''), (''guild_id'', JStr ''20''),
     (''name'', JStr ''Call''), (''entity_type'', JInt 2),
     (''scheduled_start_time'', JStr ''2000''), (''status'', JInt 1), (''image'', JNull),
     (''channel_id'', JStr ''30'')]"

definition mock_world :: "error + payload \<Rightarrow> json list list \<Rightarrow> (int, mock_conn) world" where
  "mock_world r bs =
     snd (init mock_env 0 voice_payload
       (snd (init mock_env 0 external_payload
          \<lparr> conn = \<lparr>cache = [], reply = r, script = bs\<rparr>, http_calls = [], events = [],
            dicts = [] \<rparr>)))"

text \<open>A subscription record as the transport returns it, for the user with the given id.\<close>

definition subscriber :: "int \<Rightarrow> json" where
  "subscriber n = JObj [(''user'', JObj [(''id'', JInt n)])]"

text \<open>The mock world with user 7 subscribed to the first event.\<close>

definition subscribed_world :: "(int, mock_conn) world" where
  "subscribed_world = (mock_world (Inl HTTPException) [])\<lparr>dicts := [[7 \<mapsto> 7], Map.empty]\<rparr>"

section \<open>Observing a traversal\<close>

text \<open>Which boundary parameter a subscriber request carries.\<close>

fun is_after_request :: "http_call \<Rightarrow> bool" where
  "is_after_request (UsersCall guild_id event_id limit with_member (After a)) = True"
| "is_after_request _ = False"

fun is_before_request :: "http_call \<Rightarrow> bool" where
  "is_before_request (UsersCall guild_id event_id limit with_member (Before b)) = True"
| "is_before_request _ = False"

text \<open>What a client-side filter demands of a user id.\<close>

fun passes :: "predicate \<Rightarrow> int \<Rightarrow> bool" where
  "passes (IdLess b) n = (n < b)"
| "passes (IdGreater a) n = (a < n)"

text \<open>A subscription record whose \<^verbatim>\<open>['user']['id']\<close> is there and converts to an int.\<close>

definition has_user_id :: "json \<Rightarrow> bool" where
  "has_user_id r =
     (case bind_err (subscript r ''user'') (\<lambda>u. bind_err (subscript u ''id'') py_int) of
        Inl e \<Rightarrow> False
      | Inr n \<Rightarrow> True)"

text \<open>
  The requests of a traversal in one direction: each carries the boundary parameter of
  the direction, and the first carries the boundary the traversal started from.
\<close>

definition requests_in_direction :: "bool \<Rightarrow> int option \<Rightarrow> http_call list \<Rightarrow> bool" where
  "requests_in_direction reverse state calls =
     (list_all (if reverse then is_after_request else is_before_request) calls \<and>
      (\<forall>c \<in> set (take 1 calls). \<exists>g i n.
          c = UsersCall g i n False ((if reverse then After else Before) state)))"

text \<open>A record that the client-side filter of a traversal, if there is one, lets through.\<close>

definition kept :: "predicate option \<Rightarrow> json \<Rightarrow> bool" where
  "kept p r = (case p of None \<Rightarrow> True | Some q \<Rightarrow> apply_predicate q r = Inr True)"

section \<open>Properties of the subscriber cache and of hydration\<close>

text \<open>
  C10. Removing a subscriber whose id is not a key of the event's subscriber dict raises
  \<^verbatim>\<open>KeyError\<close> and changes nothing; when the id is a key, the call returns nothing,
  the entry is gone from the dict and every other entry is as before.
\<close>

theorem pop_user_missing_or_present:
  assumes "self_users (events w ! self) = Some d" and "d < length (dicts w)"
  shows "((dicts w ! d) uid = None \<longrightarrow> pop_user self uid w = (Inl KeyError, w)) \<and>
         ((dicts w ! d) uid \<noteq> None \<longrightarrow>
            fst (pop_user self uid w) = Inr () \<and>
            dicts (snd (pop_user self uid w)) ! d = (dicts w ! d)(uid := None) \<and>
            events (snd (pop_user self uid w)) = events w)"
  using assms by (auto simp: pop_user_def attr_def dict_pop_def)

theorem pop_user_missing_or_present_witness:
  "pop_user 0 8 subscribed_world = (Inl KeyError, subscribed_world) \<and>
   fst (pop_user 0 7 subscribed_world) = Inr () \<and>
   (dicts (snd (pop_user 0 7 subscribed_world)) ! 0) 7 = None"
proof -
  have h1: "self_users (events subscribed_world ! 0) = Some 0" by code_simp
  have h2: "0 < length (dicts subscribed_world)" by code_simp
  have h3: "(dicts subscribed_world ! 0) 8 = None" by code_simp
  have h4: "(dicts subscribed_world ! 0) 7 \<noteq> None" by code_simp
  from pop_user_missing_or_present [OF h1 h2, of 8]
       pop_user_missing_or_present [OF h1 h2, of 7] h3 h4
  show ?thesis by simp
qed

text \<open>
  C1. The channel accessor never reaches the channel registry: the name \<^verbatim>\<open>guild\<close> is
  neither a slot nor a member of the class, so evaluating \<^verbatim>\<open>self.guild\<close> raises
  \<^verbatim>\<open>AttributeError\<close> for every event, whatever its \<open>channel_id\<close> and whatever the
  registry holds.
\<close>

theorem channel_raises_attribute_error:
  "channel guild get_channel self = Inl AttributeError"
  by (simp add: channel_def resolves_def slots_def class_body_def hashable_members_def)

text \<open>
  C2. Hydrating a payload whose \<^verbatim>\<open>entity_metadata\<close> sub-object holds the location
  \<^verbatim>\<open>Park\<close> succeeds and leaves the slot \<open>location\<close> unassigned: \<^verbatim>\<open>_update\<close> reads the
  key \<^verbatim>\<open>metadata\<close>.
\<close>

theorem update_misses_entity_metadata:
  "case event_update mock_env
          (external_payload @ [(''entity_metadata'', JObj [(''location'', JStr ''Park'')])])
          (new_event, \<lparr>cache = [], reply = Inl HTTPException, script = []\<rparr>) of
     (r, self', s') \<Rightarrow> r = None \<and> self_location self' = None"
  by code_simp

text \<open>A key that \<^verbatim>\<open>_update\<close> does not read has no effect on it.\<close>

lemma map_of_update_other: "k' \<noteq> k \<Longrightarrow> map_of (AList.update k v al) k' = map_of al k'"
  by (simp add: update_conv')

lemma getitem_update_other: "k' \<noteq> k \<Longrightarrow> getitem (AList.update k v al) k' = getitem al k'"
  by (simp add: getitem_def map_of_update_other)

lemma get_default_update_other:
  "k' \<noteq> k \<Longrightarrow> get_default (AList.update k v al) k' d = get_default al k' d"
  by (simp add: get_default_def map_of_update_other)

lemma get_as_snowflake_update_other:
  "k' \<noteq> k \<Longrightarrow> get_as_snowflake (AList.update k v al) k' = get_as_snowflake al k'"
  by (simp add: get_as_snowflake_def map_of_update_other)

lemma update_ignores_privacy_level:
  "event_update env (AList.update ''privacy_level'' x data) = event_update env data"
  by (simp add: event_update_def getitem_update_other get_default_update_other
      get_as_snowflake_update_other)

lemma update_status_decoded:
  assumes "event_update env data (self, s) = (None, (self', s'))"
  shows "\<exists>v. getitem data ''status'' = Inr v \<and>
             self_privacy_level self' = Some (EnumVal PrivacyLevel v) \<and>
             self_status self' = Some (EnumVal EventStatus v)"
  using assms
  by (auto simp: event_update_def assign_def bind_err_def try_enum_def unroll_metadata_def
      Let_def split: sum.splits prod.splits if_splits)

lemma update_keeps_codes_equal:
  assumes "event_update env data (self, s) = (r, (self', s'))"
    and "map_option enum_value (self_privacy_level self) = map_option enum_value (self_status self)"
  shows "map_option enum_value (self_privacy_level self') = map_option enum_value (self_status self')"
  using assms
  by (auto simp: event_update_def assign_def bind_err_def try_enum_def unroll_metadata_def
      Let_def split: sum.splits prod.splits if_splits)

text \<open>
  C9. Every run of \<^verbatim>\<open>_update\<close> (the constructor, a re-hydration, the constructor that
  \<^verbatim>\<open>edit\<close> calls) decodes \<open>privacy_level\<close> from the key \<^verbatim>\<open>status\<close>: when it succeeds,
  \<open>privacy_level\<close> and \<open>status\<close> are the values of their enumerations for the raw code
  \<^verbatim>\<open>data['status']\<close>; when it raises, the two slots still carry equal codes if they did
  before; and a key \<^verbatim>\<open>privacy_level\<close> in the payload changes nothing.
\<close>

theorem update_privacy_level_from_status:
  "case event_update env data (self, s) of
     (r, self', s') \<Rightarrow>
       (r = None \<longrightarrow>
          (\<exists>v. getitem data ''status'' = Inr v \<and>
               self_privacy_level self' = Some (EnumVal PrivacyLevel v) \<and>
               self_status self' = Some (EnumVal EventStatus v))) \<and>
       (map_option enum_value (self_privacy_level self) = map_option enum_value (self_status self)
          \<longrightarrow> map_option enum_value (self_privacy_level self')
                = map_option enum_value (self_status self')) \<and>
       event_update env (AList.update ''privacy_level'' x data) (self, s) = (r, self', s')"
proof (cases "event_update env data (self, s)")
  case (fields r self' s')
  have "r = None \<longrightarrow>
          (\<exists>v. getitem data ''status'' = Inr v \<and>
               self_privacy_level self' = Some (EnumVal PrivacyLevel v) \<and>
               self_status self' = Some (EnumVal EventStatus v))"
    using fields update_status_decoded [of env data self s self' s'] by auto
  moreover have "map_option enum_value (self_privacy_level self) = map_option enum_value (self_status self)
          \<longrightarrow> map_option enum_value (self_privacy_level self')
                = map_option enum_value (self_status self')"
    using fields update_keeps_codes_equal [of env data self s r self' s'] by auto
  ultimately show ?thesis
    using fields by (simp add: update_ignores_privacy_level)
qed

theorem update_privacy_level_from_status_witness:
  "fst (event_update mock_env (external_payload @ [(''privacy_level'', JInt 2)])
          (new_event, \<lparr>cache = [], reply = Inl HTTPException, script = []\<rparr>)) = None \<and>
   self_privacy_level (fst (snd (event_update mock_env
          (external_payload @ [(''privacy_level'', JInt 2)])
          (new_event, \<lparr>cache = [], reply = Inl HTTPException, script = []\<rparr>))))
     = Some (EnumVal PrivacyLevel (JInt 1))"
proof -
  let ?data = "external_payload @ [(''privacy_level'', JInt 2)]"
  let ?c = "\<lparr>cache = [], reply = Inl HTTPException, script = []\<rparr>"
  have h: "fst (event_update mock_env ?data (new_event, ?c)) = None" by code_simp
  have g: "getitem ?data ''status'' = Inr (JInt 1)" by code_simp
  from update_privacy_level_from_status
         [where env = mock_env and data = ?data and self = new_event and s = ?c] h g
  show ?thesis by (auto simp: split_beta)
qed

section \<open>Properties of editing\<close>

lemma init_keeps_heap:
  "init env st data w = (r, w') \<Longrightarrow>
     take (length (events w)) (events w') = events w \<and>
     take (length (dicts w)) (dicts w') = dicts w \<and>
     length (events w') = Suc (length (events w)) \<and>
     length (dicts w') = Suc (length (dicts w)) \<and>
     http_calls w' = http_calls w \<and>
     (\<forall>s. r = Inr s \<longrightarrow> s = length (events w))"
  by (auto simp: init_def Let_def split: prod.splits option.splits)

lemma edit_local_failure:
  "edit_payload env (events w ! self) a = Inl e \<Longrightarrow> edit env self a w = (Inl e, w)"
  by (simp add: edit_def)

text \<open>
  What \<^verbatim>\<open>edit\<close> does to the stores: nothing, or it appends one event and one dict
  (world \<open>w2\<close>) and, when it succeeds, points the new event at the dict of \<open>self\<close>.
\<close>

lemma edit_shape:
  assumes "edit env self a w = (r, w')"
  shows "\<exists>w2. take (length (events w)) (events w2) = events w \<and>
              take (length (dicts w)) (dicts w2) = dicts w \<and>
              length (dicts w) \<le> length (dicts w2) \<and>
              ((w' = w2 \<and> (\<forall>s. r \<noteq> Inr s)) \<or>
               (\<exists>dd. r = Inr (length (events w)) \<and>
                     length (events w2) = Suc (length (events w)) \<and>
                     attr (self_users (events w2 ! self)) = Inr dd \<and>
                     w' = w2\<lparr>events := (events w2)[length (events w) :=
                            (events w2 ! length (events w))\<lparr>self_users := Some dd\<rparr>]\<rparr>))"
proof (cases "edit_payload env (events w ! self) a")
  case (Inl e)
  with assms have "w' = w \<and> r = Inl e" by (simp add: edit_def)
  then show ?thesis by (intro exI [of _ w]) auto
next
  case (Inr payload)
  note p = this
  show ?thesis
  proof (cases "bind_err (attr (self_state (events w ! self))) (\<lambda>state.
                bind_err (attr (self_guild_id (events w ! self))) (\<lambda>guild_id.
                bind_err (attr (self_id (events w ! self))) (\<lambda>event_id.
                Inr (state, guild_id, event_id))))")
    case (Inl e)
    with assms p have "w' = w \<and> r = Inl e" by (simp add: edit_def)
    then show ?thesis by (intro exI [of _ w]) auto
  next
    case (Inr t)
    note b = this
    obtain state guild_id event_id where t: "t = (state, guild_id, event_id)"
      by (cases t) auto
    obtain rr c where tr:
      "edit_scheduled_event env guild_id event_id payload (arg_reason a) (conn w) = (rr, c)"
      by (cases "edit_scheduled_event env guild_id event_id payload (arg_reason a) (conn w)") auto
    let ?w1 = "w\<lparr>conn := c,
      http_calls := http_calls w @ [EditCall guild_id event_id payload (arg_reason a)]\<rparr>"
    show ?thesis
    proof (cases rr)
      case (Inl e)
      with assms p b t tr have "w' = ?w1 \<and> r = Inl e" by (auto simp: edit_def Let_def)
      then show ?thesis by (intro exI [of _ ?w1]) auto
    next
      case (Inr data)
      note d = this
      obtain ri w2 where i: "init env state data ?w1 = (ri, w2)"
        by (cases "init env state data ?w1") auto
      from init_keeps_heap [OF i]
      have k: "take (length (events w)) (events w2) = events w"
              "take (length (dicts w)) (dicts w2) = dicts w"
              "length (events w2) = Suc (length (events w))"
              "length (dicts w2) = Suc (length (dicts w))"
              "\<forall>s. ri = Inr s \<longrightarrow> s = length (events w)"
        by simp_all
      from assms p b t tr d i k(5)
      have "(w' = w2 \<and> (\<forall>s. r \<noteq> Inr s)) \<or>
            (\<exists>dd. r = Inr (length (events w)) \<and> attr (self_users (events w2 ! self)) = Inr dd \<and>
               w' = w2\<lparr>events := (events w2)[length (events w) :=
                      (events w2 ! length (events w))\<lparr>self_users := Some dd\<rparr>]\<rparr>)"
        by (auto simp: edit_def Let_def split: sum.splits)
      with k show ?thesis by (intro exI [of _ w2]) auto
    qed
  qed
qed

lemma edit_keeps_heap:
  assumes "edit env self a w = (r, w')"
  shows "take (length (events w)) (events w') = events w \<and>
         take (length (dicts w)) (dicts w') = dicts w"
  using edit_shape [OF assms] by auto

lemma edit_calls_after_validation:
  assumes "edit env self a w = (r, w')" and "http_calls w' \<noteq> http_calls w"
  shows "\<exists>p. edit_payload env (events w ! self) a = Inr p"
proof (cases "edit_payload env (events w ! self) a")
  case (Inl e)
  with assms show ?thesis by (simp add: edit_def)
next
  case (Inr p)
  then show ?thesis by blast
qed

text \<open>
  C5. Every check of \<^verbatim>\<open>edit\<close> (time zone, enumeration class, the requirements of the
  entity type) is made while the payload is built: when one fails, \<^verbatim>\<open>edit\<close> raises
  that exception and the world is as before, so no request was sent; a request is sent
  only after the payload was built. Whether \<^verbatim>\<open>edit\<close> raises locally, the transport
  raises, or the call succeeds, the object \<open>self\<close> and the dict its \<open>_users\<close> refers to
  are unchanged.
\<close>

theorem edit_validates_first_and_keeps_self:
  assumes "edit env self a w = (r, w')" and "self < length (events w)"
    and "self_users (events w ! self) = Some d" and "d < length (dicts w)"
  shows "(\<forall>e. edit_payload env (events w ! self) a = Inl e \<longrightarrow> r = Inl e \<and> w' = w) \<and>
         (http_calls w' \<noteq> http_calls w \<longrightarrow> (\<exists>p. edit_payload env (events w ! self) a = Inr p)) \<and>
         events w' ! self = events w ! self \<and>
         dicts w' ! d = dicts w ! d"
proof -
  have 1: "\<forall>e. edit_payload env (events w ! self) a = Inl e \<longrightarrow> r = Inl e \<and> w' = w"
    using assms(1) edit_local_failure [of env w self a] by auto
  have 2: "http_calls w' \<noteq> http_calls w \<longrightarrow> (\<exists>p. edit_payload env (events w ! self) a = Inr p)"
    using edit_calls_after_validation [OF assms(1)] by blast
  from edit_keeps_heap [OF assms(1)]
  have t: "take (length (events w)) (events w') = events w"
          "take (length (dicts w)) (dicts w') = dicts w" by simp_all
  have 3: "events w' ! self = events w ! self"
    using nth_take [OF assms(2), of "events w'"] t(1) by simp
  have 4: "dicts w' ! d = dicts w ! d"
    using nth_take [OF assms(4), of "dicts w'"] t(2) by simp
  from 1 2 3 4 show ?thesis by blast
qed

theorem edit_validates_first_and_keeps_self_witness:
  "edit mock_env 1 no_args (mock_world (Inr voice_payload) [])
     = (Inl TypeError, mock_world (Inr voice_payload) []) \<and>
   fst (edit mock_env 1 (no_args\<lparr>arg_channel := Given (Some 5)\<rparr>)
          (mock_world (Inr voice_payload) [])) = Inr 2 \<and>
   events (snd (edit mock_env 1 (no_args\<lparr>arg_channel := Given (Some 5)\<rparr>)
          (mock_world (Inr voice_payload) []))) ! 1
     = events (mock_world (Inr voice_payload) []) ! 1 \<and>
   dicts (snd (edit mock_env 1 (no_args\<lparr>arg_channel := Given (Some 5)\<rparr>)
          (mock_world (Inr voice_payload) []))) ! 1
     = dicts (mock_world (Inr voice_payload) []) ! 1"
proof -
  let ?w = "mock_world (Inr voice_payload) []"
  let ?a = "no_args\<lparr>arg_channel := Given (Some 5)\<rparr>"
  have h1: "1 < length (events ?w)" by code_simp
  have h2: "self_users (events ?w ! 1) = Some 1" by code_simp
  have h3: "1 < length (dicts ?w)" by code_simp
  have p: "edit_payload mock_env (events ?w ! 1) no_args = Inl TypeError" by code_simp
  have q: "fst (edit mock_env 1 ?a ?w) = Inr 2" by code_simp
  from edit_validates_first_and_keeps_self
         [OF surjective_pairing [of "edit mock_env 1 no_args ?w"] h1 h2 h3]
       edit_validates_first_and_keeps_self
         [OF surjective_pairing [of "edit mock_env 1 ?a ?w"] h1 h2 h3] p q
  show ?thesis by (simp add: prod_eq_iff)
qed

text \<open>
  C8. A successful \<^verbatim>\<open>edit\<close> returns an object at a new address, different from
  \<open>self\<close>, and the \<open>_users\<close> slots of the two hold the same reference: a user added
  through either is in the one dict that both refer to.
\<close>

theorem edit_returns_new_event_sharing_users:
  assumes "edit env self a w = (Inr s, w')" and "self < length (events w)"
    and "self_users (events w ! self) = Some d" and "d < length (dicts w)"
  shows "s \<noteq> self \<and> s < length (events w') \<and>
         self_users (events w' ! s) = Some d \<and>
         self_users (events w' ! self) = Some d \<and>
         d < length (dicts w') \<and>
         (\<forall>u. events (snd (add_user env s u w')) = events w' \<and>
              (dicts (snd (add_user env s u w')) ! d) (user_id env u) = Some u) \<and>
         (\<forall>u. events (snd (add_user env self u w')) = events w' \<and>
              (dicts (snd (add_user env self u w')) ! d) (user_id env u) = Some u)"
proof -
  from edit_shape [OF assms(1)] obtain w2 dd where
    k: "take (length (events w)) (events w2) = events w"
       "take (length (dicts w)) (dicts w2) = dicts w"
       "s = length (events w)"
       "length (events w2) = Suc (length (events w))"
       "attr (self_users (events w2 ! self)) = Inr dd"
       "length (dicts w) \<le> length (dicts w2)"
       "w' = w2\<lparr>events := (events w2)[length (events w) :=
                      (events w2 ! length (events w))\<lparr>self_users := Some dd\<rparr>]\<rparr>"
    by auto
  have e: "events w2 ! self = events w ! self"
    using nth_take [OF assms(2), of "events w2"] k(1) by simp
  with k(5) assms(3) have dd: "dd = d" by (simp add: attr_def)
  have ld: "d < length (dicts w')"
    using k(6) k(7) assms(4) by simp
  have s1: "s \<noteq> self" using k(3) assms(2) by simp
  have s2: "s < length (events w')" using k by simp
  have s3: "self_users (events w' ! s) = Some d" using k dd by simp
  have s4: "self_users (events w' ! self) = Some d" using k dd e assms(2,3) by simp
  have s5: "\<forall>u. events (snd (add_user env s u w')) = events w' \<and>
              (dicts (snd (add_user env s u w')) ! d) (user_id env u) = Some u"
    using s3 ld by (simp add: add_user_def attr_def)
  have s6: "\<forall>u. events (snd (add_user env self u w')) = events w' \<and>
              (dicts (snd (add_user env self u w')) ! d) (user_id env u) = Some u"
    using s4 ld by (simp add: add_user_def attr_def)
  from s1 s2 s3 s4 ld s5 s6 show ?thesis by blast
qed

theorem edit_returns_new_event_sharing_users_witness:
  "fst (edit mock_env 1 (no_args\<lparr>arg_channel := Given (Some 5)\<rparr>)
          (mock_world (Inr voice_payload) [])) = Inr 2 \<and>
   self_users (events (snd (edit mock_env 1 (no_args\<lparr>arg_channel := Given (Some 5)\<rparr>)
          (mock_world (Inr voice_payload) []))) ! 2) = Some 1 \<and>
   (dicts (snd (add_user mock_env 2 7
      (snd (edit mock_env 1 (no_args\<lparr>arg_channel := Given (Some 5)\<rparr>)
          (mock_world (Inr voice_payload) []))))) ! 1) 7 = Some 7"
proof -
  let ?w = "mock_world (Inr voice_payload) []"
  let ?a = "no_args\<lparr>arg_channel := Given (Some 5)\<rparr>"
  have h1: "1 < length (events ?w)" by code_simp
  have h2: "self_users (events ?w ! 1) = Some 1" by code_simp
  have h3: "1 < length (dicts ?w)" by code_simp
  have q: "fst (edit mock_env 1 ?a ?w) = Inr 2" by code_simp
  have h0: "edit mock_env 1 ?a ?w = (Inr 2, snd (edit mock_env 1 ?a ?w))"
    using q by (simp add: prod_eq_iff)
  have u: "user_id mock_env 7 = 7" by (simp add: mock_env_def)
  from edit_returns_new_event_sharing_users [OF h0 h1 h2 h3] q u
  show ?thesis by (metis (no_types))
qed

text \<open>
  The time zone checks that \<^verbatim>\<open>edit\<close> does make: a naive \<open>start_time\<close> raises
  \<^verbatim>\<open>ValueError\<close> whatever else is given, and a naive \<open>end_time\<close> raises it on an event
  that is neither a stage nor a voice event, once a location is given.
\<close>

lemma exec_skip: "exec [] = (\<lambda>f. (None, f))"
  by (rule ext) simp

lemma edit_payload_naive_start_time:
  assumes "arg_start_time a = Given t" and "tzinfo t = None"
  shows "edit_payload env self a = Inl ValueError"
  using assms
  by (cases "arg_name a")
     (simp_all add: edit_payload_def raise_if_def set_payload_def exec_skip)

lemma edit_payload_external_naive_end_time:
  assumes "a = no_args\<lparr>arg_location := Given (Some l), arg_end_time := Given t\<rparr>"
    and "tzinfo t = None"
    and "self_entity_type self = Some e"
    and "e \<noteq> EnumVal EntityType (stage_instance env)" and "e \<noteq> EnumVal EntityType (voice env)"
  shows "edit_payload env self a = Inl ValueError"
  using assms
  by (simp add: edit_payload_def raise_if_def set_payload_def set_metadata_def no_args_def
      attr_def exec_skip)

text \<open>
  C3. On a voice event, \<^verbatim>\<open>edit\<close> with a channel and an \<open>end_time\<close> that has no
  \<open>tzinfo\<close> raises nothing: the request is sent, without the end time, and a new event
  is returned. The time zone of \<open>end_time\<close> is checked in the branch for external events
  only.
\<close>

theorem edit_accepts_naive_end_time:
  "case edit mock_env 1
          (no_args\<lparr>arg_channel := Given (Some 5),
                   arg_end_time := Given \<lparr>wall = 0, tzinfo = None\<rparr>\<rparr>)
          (mock_world (Inr voice_payload) []) of
     (r, w') \<Rightarrow> r = Inr 2 \<and> http_calls w' = [EditCall 20 11 [(''channel_id'', JInt 5)] None]"
  by code_simp

section \<open>Properties of the subscriber paginator\<close>

lemma request_users_effect:
  assumes "request_users env self retrieve c w = (r, w')"
  shows "events w' = events w \<and>
         ((http_calls w' = http_calls w \<and> (\<exists>e. r = Inl e) \<and> conn w' = conn w) \<or>
          (\<exists>g i. http_calls w' = http_calls w @ [UsersCall g i retrieve False c]))"
  using assms
  by (auto simp: request_users_def split: sum.splits prod.splits)

lemma before_strategy_effect:
  assumes "before_strategy env self retrieve state limit w = (r, w')"
  shows "events w' = events w \<and>
         (http_calls w' = http_calls w \<and> (\<exists>e. r = Inl e) \<or>
          (\<exists>g i. http_calls w' = http_calls w @ [UsersCall g i retrieve False (Before state)]))"
proof (cases "request_users env self retrieve (Before state) w")
  case (Pair rr w1)
  from request_users_effect [OF Pair] assms Pair show ?thesis
    by (auto simp: before_strategy_def Let_def split: sum.splits if_splits)
qed

lemma after_strategy_effect:
  assumes "after_strategy env self retrieve state limit w = (r, w')"
  shows "events w' = events w \<and>
         (http_calls w' = http_calls w \<and> (\<exists>e. r = Inl e) \<or>
          (\<exists>g i. http_calls w' = http_calls w @ [UsersCall g i retrieve False (After state)]))"
proof (cases "request_users env self retrieve (After state) w")
  case (Pair rr w1)
  from request_users_effect [OF Pair] assms Pair show ?thesis
    by (auto simp: after_strategy_def Let_def split: sum.splits if_splits)
qed

lemma yield_users_effect:
  "yield_users env p data w = (r, ys, w') \<Longrightarrow>
     events w' = events w \<and> http_calls w' = http_calls w"
proof (induction data arbitrary: w r ys w')
  case Nil
  then show ?case by simp
next
  case (Cons raw data)
  then show ?case
    by (auto split: sum.splits bool.splits prod.splits option.splits)
qed


lemma strategy_effect:
  assumes "(if reverse then after_strategy else before_strategy) env self retrieve state limit w
             = (r, w')"
  shows "events w' = events w \<and>
         (http_calls w' = http_calls w \<and> (\<exists>e. r = Inl e) \<or>
          (\<exists>g i. http_calls w' = http_calls w @
             [UsersCall g i retrieve False ((if reverse then After else Before) state)]))"
proof (cases reverse)
  case True
  with assms after_strategy_effect [of env self retrieve state limit w r w'] show ?thesis by simp
next
  case False
  with assms before_strategy_effect [of env self retrieve state limit w r w'] show ?thesis by simp
qed

lemma requests_in_direction_Nil: "requests_in_direction reverse state []"
  by (simp add: requests_in_direction_def)

lemma requests_in_direction_Cons:
  "requests_in_direction reverse state' calls \<Longrightarrow>
   requests_in_direction reverse state
     (UsersCall g i n False ((if reverse then After else Before) state) # calls)"
  by (auto simp: requests_in_direction_def)

lemma users_loop_Suc:
  assumes "retrieve = min (case limit of None \<Rightarrow> 100 | Some l \<Rightarrow> l) 100"
  shows "users_loop (Suc fuel) env self reverse p state limit w =
     (if retrieve < 1 then (Returned, [], w)
      else
        (case (if reverse then after_strategy else before_strategy) env self retrieve state limit w of
           (Inl e, w1) \<Rightarrow> (Raised e, [], w1)
         | (Inr (data, state', limit'), w1) \<Rightarrow>
             (case yield_users env p (if reverse then rev data else data) w1 of
                (Some e, ys, w2) \<Rightarrow> (Raised e, ys, w2)
              | (None, ys, w2) \<Rightarrow>
                  (case users_loop fuel env self reverse p state'
                          (if length data < 100 then Some 0 else limit') w2 of
                     (r, zs, w3) \<Rightarrow> (r, ys @ zs, w3)))))"
  unfolding assms by (simp only: users_loop.simps Let_def)

declare users_loop.simps(2) [simp del]

lemma users_loop_calls:
  "users_loop fuel env self reverse p state limit w = (r, ys, w') \<Longrightarrow>
     events w' = events w \<and>
     (\<exists>calls. http_calls w' = http_calls w @ calls \<and> requests_in_direction reverse state calls)"
proof (induction fuel arbitrary: state limit w r ys w')
  case 0
  then show ?case by (auto simp: requests_in_direction_Nil)
next
  case (Suc fuel)
  define retrieve where "retrieve = min (case limit of None \<Rightarrow> 100 | Some l \<Rightarrow> l) (100::int)"
  note prem = Suc.prems [unfolded users_loop_Suc [OF retrieve_def]]
  show ?case
  proof (cases "retrieve < 1")
    case True
    with prem show ?thesis by (auto simp: requests_in_direction_Nil)
  next
    case False
    note nf = this
    obtain rs w1 where s:
      "(if reverse then after_strategy else before_strategy) env self retrieve state limit w
         = (rs, w1)"
      by (cases "(if reverse then after_strategy else before_strategy) env self retrieve state limit w") auto
    note se = strategy_effect [OF s]
    show ?thesis
    proof (cases rs)
      case (Inl e)
      with prem nf s have "w' = w1" by auto
      with se show ?thesis
        using requests_in_direction_Nil [of reverse state]
              requests_in_direction_Cons [OF requests_in_direction_Nil, of reverse state]
        by (metis append_Nil2)
    next
      case (Inr t)
      obtain data state' limit' where t: "t = (data, state', limit')" by (cases t) auto
      from se Inr obtain g i where c1:
        "http_calls w1 = http_calls w @
           [UsersCall g i retrieve False ((if reverse then After else Before) state)]"
        by auto
      obtain ry ys1 w2 where y:
        "yield_users env p (if reverse then rev data else data) w1 = (ry, ys1, w2)"
        by (cases "yield_users env p (if reverse then rev data else data) w1") auto
      note ye = yield_users_effect [OF y]
      show ?thesis
      proof (cases ry)
        case (Some e)
        with prem nf s Inr t y have "w' = w2" by auto
        with ye se c1 show ?thesis
          using requests_in_direction_Cons [OF requests_in_direction_Nil, of reverse state]
          by auto
      next
        case None
        obtain r3 zs w3 where l:
          "users_loop fuel env self reverse p state'
             (if length data < 100 then Some 0 else limit') w2 = (r3, zs, w3)"
          by (cases "users_loop fuel env self reverse p state'
             (if length data < 100 then Some 0 else limit') w2") auto
        from Suc.IH [OF l] obtain calls where ih:
          "events w3 = events w2" "http_calls w3 = http_calls w2 @ calls"
          "requests_in_direction reverse state' calls"
          by auto
        from prem nf s Inr t y None l have "w' = w3" by auto
        with ye se c1 ih requests_in_direction_Cons [OF ih(3), of state g i retrieve]
        show ?thesis by auto
      qed
    qed
  qed
qed


lemma users_calls:
  assumes "users fuel env self limit before after oldest_first w = (r, ys, w')"
  shows "\<exists>calls. http_calls w' = http_calls w @ calls \<and>
           requests_in_direction (direction oldest_first after)
             (if direction oldest_first after then after else before) calls"
proof (cases "case limit of
              Some l \<Rightarrow> Inr (Some l)
            | None \<Rightarrow>
                bind_err (attr (self_user_count (events w ! self))) (\<lambda>user_count.
                  if truthy user_count then bind_err (as_number user_count) (\<lambda>n. Inr (Some n))
                  else Inr None)")
  case (Inl e)
  with assms have "w' = w" by (simp add: users_def)
  then show ?thesis by (simp add: requests_in_direction_Nil)
next
  case (Inr limit')
  with assms have "users_loop fuel env self (direction oldest_first after)
      (client_filter env (direction oldest_first after) before after)
      (if direction oldest_first after then after else before) limit' w = (r, ys, w')"
    by (simp add: users_def Let_def)
  from users_loop_calls [OF this] show ?thesis by simp
qed

text \<open>
  C7. With \<open>oldest_first\<close> unspecified and an \<open>after\<close> boundary, every request of the
  traversal carries its boundary in the parameter \<open>after\<close>, none in \<open>before\<close>; with
  \<open>oldest_first\<close> unspecified and no \<open>after\<close>, every request uses \<open>before\<close>; and when
  \<open>oldest_first\<close> is given, true makes every request use \<open>after\<close> and false makes every
  request use \<open>before\<close>, whatever the boundaries are.
\<close>

theorem users_direction:
  assumes "users fuel env self limit before after oldest_first w = (r, ys, w')"
  shows "\<exists>calls. http_calls w' = http_calls w @ calls \<and>
           (oldest_first = MISSING \<longrightarrow> after \<noteq> None \<longrightarrow> list_all is_after_request calls) \<and>
           (oldest_first = MISSING \<longrightarrow> after = None \<longrightarrow> list_all is_before_request calls) \<and>
           (oldest_first = Given True \<longrightarrow> list_all is_after_request calls) \<and>
           (oldest_first = Given False \<longrightarrow> list_all is_before_request calls)"
proof -
  from users_calls [OF assms] obtain calls where
    c: "http_calls w' = http_calls w @ calls"
       "list_all (if direction oldest_first after then is_after_request else is_before_request) calls"
    by (auto simp: requests_in_direction_def)
  from c(2) have
    "(oldest_first = MISSING \<longrightarrow> after \<noteq> None \<longrightarrow> list_all is_after_request calls) \<and>
     (oldest_first = MISSING \<longrightarrow> after = None \<longrightarrow> list_all is_before_request calls) \<and>
     (oldest_first = Given True \<longrightarrow> list_all is_after_request calls) \<and>
     (oldest_first = Given False \<longrightarrow> list_all is_before_request calls)"
    by (auto simp: direction_def)
  with c(1) show ?thesis by blast
qed

theorem users_direction_witness:
  "http_calls (snd (snd (users 3 mock_env 0 None None (Some 5) MISSING
      (mock_world (Inl HTTPException) [[subscriber 7, subscriber 6]]))))
     = [UsersCall 20 10 100 False (After (Some 5))] \<and>
   is_after_request (UsersCall 20 10 100 False (After (Some 5)))"
proof -
  let ?w = "mock_world (Inl HTTPException) [[subscriber 7, subscriber 6]]"
  let ?u = "users 3 mock_env 0 None None (Some 5) MISSING ?w"
  have h: "?u = (fst ?u, fst (snd ?u), snd (snd ?u))" by simp
  have c: "http_calls (snd (snd ?u)) = [UsersCall 20 10 100 False (After (Some 5))]"
    by code_simp
  have e: "http_calls ?w = []" by code_simp
  from users_direction [OF h] c e show ?thesis by auto
qed

lemma as_number_py_int: "as_number i = Inr n \<Longrightarrow> py_int i = Inr n"
  by (cases i) auto

lemma apply_predicate_True:
  assumes "apply_predicate q raw = Inr True"
  shows "\<exists>u i n. subscript raw ''user'' = Inr u \<and> subscript u ''id'' = Inr i \<and>
                 py_int i = Inr n \<and> passes q n"
proof -
  from assms obtain u where u: "subscript raw ''user'' = Inr u"
    by (cases "subscript raw ''user''") (auto simp: apply_predicate_def bind_err_def)
  from assms u obtain i where i: "subscript u ''id'' = Inr i"
    by (cases "subscript u ''id''") (auto simp: apply_predicate_def bind_err_def)
  from assms u i obtain n where n: "as_number i = Inr n"
    by (cases "as_number i") (auto simp: apply_predicate_def bind_err_def)
  from assms u i n have "passes q n"
    by (cases q) (auto simp: apply_predicate_def bind_err_def)
  with u i as_number_py_int [OF n] show ?thesis by blast
qed

lemma yield_users_filtered:
  assumes contract: "\<forall>raw s u s'. store_user env raw s = (Inr u, s') \<longrightarrow>
                        bind_err (subscript raw ''id'') py_int = Inr (user_id env u)"
  shows "yield_users env (Some q) data w = (r, ys, w') \<Longrightarrow> \<forall>u \<in> set ys. passes q (user_id env u)"
proof (induction data arbitrary: w r ys w')
  case Nil
  then show ?case by simp
next
  case (Cons raw data)
  show ?case
  proof (cases "apply_predicate q raw")
    case (Inl e)
    with Cons.prems show ?thesis by simp
  next
    case (Inr b)
    show ?thesis
    proof (cases b)
      case False
      with Inr Cons.prems have "yield_users env (Some q) data w = (r, ys, w')" by simp
      from Cons.IH [OF this] show ?thesis .
    next
      case True
      with Inr have t: "apply_predicate q raw = Inr True" by simp
      from apply_predicate_True [OF t] obtain u i n where
        f: "subscript raw ''user'' = Inr u" "subscript u ''id'' = Inr i" "py_int i = Inr n"
           "passes q n" by blast
      obtain rs s where st: "store_user env u (conn w) = (rs, s)"
        by (cases "store_user env u (conn w)") auto
      show ?thesis
      proof (cases rs)
        case (Inl e)
        with Cons.prems t f st show ?thesis by simp
      next
        case (Inr user)
        obtain r2 ys2 w2 where y: "yield_users env (Some q) data (w\<lparr>conn := s\<rparr>) = (r2, ys2, w2)"
          by (cases "yield_users env (Some q) data (w\<lparr>conn := s\<rparr>)") auto
        from Cons.prems t f st Inr y have ys: "ys = user # ys2" by simp
        from contract st Inr have "bind_err (subscript u ''id'') py_int = Inr (user_id env user)"
          by blast
        with f have "user_id env user = n" by (simp add: bind_err_def)
        with f(4) Cons.IH [OF y] ys show ?thesis by simp
      qed
    qed
  qed
qed

lemma users_loop_filtered:
  assumes contract: "\<forall>raw s u s'. store_user env raw s = (Inr u, s') \<longrightarrow>
                        bind_err (subscript raw ''id'') py_int = Inr (user_id env u)"
  shows "users_loop fuel env self reverse (Some q) state limit w = (r, ys, w') \<Longrightarrow>
           \<forall>u \<in> set ys. passes q (user_id env u)"
proof (induction fuel arbitrary: state limit w r ys w')
  case 0
  then show ?case by simp
next
  case (Suc fuel)
  define retrieve where "retrieve = min (case limit of None \<Rightarrow> 100 | Some l \<Rightarrow> l) (100::int)"
  note prem = Suc.prems [unfolded users_loop_Suc [OF retrieve_def]]
  show ?case
  proof (cases "retrieve < 1")
    case True
    with prem show ?thesis by auto
  next
    case False
    note nf = this
    obtain rs w1 where s:
      "(if reverse then after_strategy else before_strategy) env self retrieve state limit w
         = (rs, w1)"
      by (cases "(if reverse then after_strategy else before_strategy) env self retrieve state limit w") auto
    show ?thesis
    proof (cases rs)
      case (Inl e)
      with prem nf s show ?thesis by auto
    next
      case (Inr t)
      obtain data state' limit' where t: "t = (data, state', limit')" by (cases t) auto
      obtain ry ys1 w2 where y:
        "yield_users env (Some q) (if reverse then rev data else data) w1 = (ry, ys1, w2)"
        by (cases "yield_users env (Some q) (if reverse then rev data else data) w1") auto
      note yf = yield_users_filtered [OF contract y]
      show ?thesis
      proof (cases ry)
        case (Some e)
        with prem nf s Inr t y have "ys = ys1" by auto
        with yf show ?thesis by simp
      next
        case None
        obtain r3 zs w3 where l:
          "users_loop fuel env self reverse (Some q) state'
             (if length data < 100 then Some 0 else limit') w2 = (r3, zs, w3)"
          by (cases "users_loop fuel env self reverse (Some q) state'
             (if length data < 100 then Some 0 else limit') w2") auto
        from prem nf s Inr t y None l have "ys = ys1 @ zs" by auto
        with yf Suc.IH [OF l] show ?thesis by auto
      qed
    qed
  qed
qed

text \<open>
  C4, as the code has it. In a backward traversal the \<open>before\<close> boundary is the cursor of
  the first request and is not checked on the client; what the client filters there is
  the \<open>after\<close> boundary: when one is given and is not \<^verbatim>\<open>OLDEST_OBJECT\<close>, every
  yielded user has an id strictly greater than it. The filter on \<open>before\<close> belongs to the
  forward traversal: every user yielded there has an id strictly less than \<open>before\<close>'s.
  The user cache is assumed to return a user whose id is the \<^verbatim>\<open>int\<close> of the payload's
  \<^verbatim>\<open>'id'\<close>.
\<close>

theorem users_client_filter:
  assumes "users fuel env self limit before after oldest_first w = (r, ys, w')"
    and "\<forall>raw s u s'. store_user env raw s = (Inr u, s') \<longrightarrow>
            bind_err (subscript raw ''id'') py_int = Inr (user_id env u)"
  shows "(\<not> direction oldest_first after \<longrightarrow>
            (\<exists>calls. http_calls w' = http_calls w @ calls \<and>
               (\<forall>c \<in> set (take 1 calls). \<exists>g i n. c = UsersCall g i n False (Before before))) \<and>
            (\<forall>a. after = Some a \<longrightarrow> a \<noteq> OLDEST_OBJECT env \<longrightarrow>
               (\<forall>u \<in> set ys. a < user_id env u))) \<and>
         (direction oldest_first after \<longrightarrow>
            (\<forall>b. before = Some b \<longrightarrow> (\<forall>u \<in> set ys. user_id env u < b)))"
proof -
  have f: "\<forall>q. client_filter env (direction oldest_first after) before after = Some q \<longrightarrow>
             (\<forall>u \<in> set ys. passes q (user_id env u))"
  proof (cases "case limit of
              Some l \<Rightarrow> Inr (Some l)
            | None \<Rightarrow>
                bind_err (attr (self_user_count (events w ! self))) (\<lambda>user_count.
                  if truthy user_count then bind_err (as_number user_count) (\<lambda>n. Inr (Some n))
                  else Inr None)")
    case (Inl e)
    with assms(1) have "ys = []" by (simp add: users_def)
    then show ?thesis by simp
  next
    case (Inr limit')
    with assms(1) have "users_loop fuel env self (direction oldest_first after)
        (client_filter env (direction oldest_first after) before after)
        (if direction oldest_first after then after else before) limit' w = (r, ys, w')"
      by (simp add: users_def Let_def)
    with users_loop_filtered [OF assms(2)] show ?thesis by metis
  qed
  have c: "\<not> direction oldest_first after \<longrightarrow>
            (\<exists>calls. http_calls w' = http_calls w @ calls \<and>
               (\<forall>c \<in> set (take 1 calls). \<exists>g i n. c = UsersCall g i n False (Before before)))"
    using users_calls [OF assms(1)] by (auto simp: requests_in_direction_def)
  from f c show ?thesis by (auto simp: client_filter_def)
qed

text \<open>
  C4, as stated, fails: a backward traversal with \<open>before\<close> of id 5 yields the user 7
  that the server returned.
\<close>

theorem users_backward_before_counterexample:
  "\<not> direction MISSING None \<and>
   fst (snd (users 2 mock_env 0 None (Some 5) None MISSING
      (mock_world (Inl HTTPException) [[subscriber 7]]))) = [7] \<and>
   \<not> user_id mock_env 7 < 5"
  by code_simp

lemma mock_store_user_id:
  "\<forall>raw s u s'. store_user mock_env raw s = (Inr u, s') \<longrightarrow>
     bind_err (subscript raw ''id'') py_int = Inr (user_id mock_env u)"
  by (auto simp: mock_env_def mock_store_user_def split: sum.splits)

theorem users_client_filter_witness:
  "\<not> direction (Given False) (Some 5) \<and>
   fst (snd (users 3 mock_env 0 None None (Some 5) (Given False)
      (mock_world (Inl HTTPException) [[subscriber 7, subscriber 3]]))) = [7] \<and>
   5 < user_id mock_env 7"
proof -
  let ?w = "mock_world (Inl HTTPException) [[subscriber 7, subscriber 3]]"
  let ?u = "users 3 mock_env 0 None None (Some 5) (Given False) ?w"
  have h: "?u = (fst ?u, fst (snd ?u), snd (snd ?u))" by simp
  have d: "\<not> direction (Given False) (Some 5)" by code_simp
  have y: "fst (snd ?u) = [7]" by code_simp
  have o: "5 \<noteq> OLDEST_OBJECT mock_env" by code_simp
  from users_client_filter [OF h mock_store_user_id] d y o show ?thesis by auto
qed

subsection \<open>Counting batches against the mock transport\<close>

lemma mock_fields [simp]:
  "store_user mock_env = mock_store_user"
  "get_scheduled_event_users mock_env = (\<lambda>guild_id event_id limit with_member c s.
        case script s of [] \<Rightarrow> (Inr [], s) | b # bs \<Rightarrow> (Inr b, s\<lparr>script := bs\<rparr>))"
  by (simp_all add: mock_env_def)

lemma has_user_idD:
  assumes "has_user_id r"
  shows "\<exists>u n. subscript r ''user'' = Inr u \<and> bind_err (subscript u ''id'') py_int = Inr n"
proof -
  from assms obtain n where
    n: "bind_err (subscript r ''user'') (\<lambda>u. bind_err (subscript u ''id'') py_int) = Inr n"
    by (auto simp: has_user_id_def split: sum.splits)
  then obtain u where u: "subscript r ''user'' = Inr u"
    by (cases "subscript r ''user''") (auto simp: bind_err_def)
  with n show ?thesis by (auto simp: bind_err_def)
qed

lemma mock_yield_all:
  "\<forall>r \<in> set data. has_user_id r \<and> kept p r \<Longrightarrow>
     \<exists>ys w'. yield_users mock_env p data w = (None, ys, w') \<and> length ys = length data \<and>
       script (conn w') = script (conn w) \<and> events w' = events w \<and>
       http_calls w' = http_calls w"
proof (induction data arbitrary: w)
  case Nil
  then show ?case by simp
next
  case (Cons raw data)
  from Cons.prems have "has_user_id raw" by simp
  from has_user_idD [OF this] obtain u n where
    u: "subscript raw ''user'' = Inr u" "bind_err (subscript u ''id'') py_int = Inr n" by blast
  from Cons.prems have k: "(case p of None \<Rightarrow> Inr True | Some q \<Rightarrow> apply_predicate q raw) = Inr True"
    by (cases p) (simp_all add: kept_def)
  define s where "s = (if n \<in> set (cache (conn w)) then conn w else (conn w)\<lparr>cache := n # cache (conn w)\<rparr>)"
  have st: "mock_store_user u (conn w) = (Inr n, s)"
    using u(2) by (simp add: mock_store_user_def s_def)
  have sc: "script s = script (conn w)" by (simp add: s_def)
  from Cons.prems have "\<forall>r \<in> set data. has_user_id r \<and> kept p r" by simp
  from Cons.IH [OF this, of "w\<lparr>conn := s\<rparr>"] obtain ys w' where
    ih: "yield_users mock_env p data (w\<lparr>conn := s\<rparr>) = (None, ys, w')" "length ys = length data"
        "script (conn w') = script s" "events w' = events w" "http_calls w' = http_calls w"
    by auto
  have "yield_users mock_env p (raw # data) w = (None, n # ys, w')"
    using u(1) st ih(1) k by simp
  with ih sc show ?case by simp
qed

lemma mock_request_users:
  assumes "self_state (events w ! self) = Some st" and "self_guild_id (events w ! self) = Some g"
    and "self_id (events w ! self) = Some i" and "script (conn w) = b # bs"
  shows "request_users mock_env self retrieve c w =
           (Inr b, w\<lparr>conn := (conn w)\<lparr>script := bs\<rparr>,
                     http_calls := http_calls w @ [UsersCall g i retrieve False c]\<rparr>)"
  using assms by (simp add: request_users_def attr_def bind_err_def)

lemma Object_eq: "Object = py_int"
  by (rule ext) (simp add: Object_def)

lemma mock_strategy:
  assumes "self_state (events w ! self) = Some st" and "self_guild_id (events w ! self) = Some g"
    and "self_id (events w ! self) = Some i" and "script (conn w) = b # bs"
    and "\<forall>r \<in> set b. has_user_id r"
  shows "\<exists>state'. (if reverse then after_strategy else before_strategy) mock_env self retrieve state
            None w =
           (Inr (b, state', None),
            w\<lparr>conn := (conn w)\<lparr>script := bs\<rparr>,
              http_calls := http_calls w @
                [UsersCall g i retrieve False ((if reverse then After else Before) state)]\<rparr>)"
proof (cases "b = []")
  case True
  then show ?thesis
    using mock_request_users [OF assms(1-4)]
    by (simp add: before_strategy_def after_strategy_def Let_def)
next
  case False
  then have "has_user_id (last b)" "has_user_id (hd b)" using assms(5) by simp_all
  from has_user_idD [OF this(1)] has_user_idD [OF this(2)] False show ?thesis
    using mock_request_users [OF assms(1-4)]
    by (auto simp: before_strategy_def after_strategy_def Let_def Object_eq bind_err_def)
qed


lemma mock_users_loop:
  assumes "self_state (events w ! self) = Some st" and "self_guild_id (events w ! self) = Some g"
    and "self_id (events w ! self) = Some i"
  shows "script (conn w) = bs @ [short] \<Longrightarrow> \<forall>b \<in> set bs. length b = 100 \<Longrightarrow>
         length short < 100 \<Longrightarrow>
         \<forall>b \<in> set (bs @ [short]). \<forall>r \<in> set b. has_user_id r \<and> kept p r \<Longrightarrow>
         length bs + 2 \<le> fuel \<Longrightarrow>
         \<exists>ys w'. users_loop fuel mock_env self reverse p state None w = (Returned, ys, w') \<and>
           length ys = 100 * length bs + length short \<and>
           length (http_calls w') = length (http_calls w) + (length bs + 1) \<and>
           script (conn w') = []"
  using assms
proof (induction bs arbitrary: fuel state w)
  case Nil
  define f where "f = fuel - 2"
  from Nil.prems(5) have fuel: "fuel = Suc (Suc f)" by (simp add: f_def)
  from Nil.prems have sc: "script (conn w) = short # []" by simp
  from Nil.prems have wf: "\<forall>r \<in> set short. has_user_id r" by simp
  from mock_strategy [OF Nil.prems(6-8) sc wf, of reverse 100 state] obtain state' where
    s: "(if reverse then after_strategy else before_strategy) mock_env self 100 state None w =
           (Inr (short, state', None),
            w\<lparr>conn := (conn w)\<lparr>script := []\<rparr>,
              http_calls := http_calls w @
                [UsersCall g i 100 False ((if reverse then After else Before) state)]\<rparr>)"
    by blast
  let ?w1 = "w\<lparr>conn := (conn w)\<lparr>script := []\<rparr>,
              http_calls := http_calls w @
                [UsersCall g i 100 False ((if reverse then After else Before) state)]\<rparr>"
  from Nil.prems have "\<forall>r \<in> set (if reverse then rev short else short). has_user_id r \<and> kept p r"
    by simp
  from mock_yield_all [OF this, of ?w1] obtain ys w2 where
    y: "yield_users mock_env p (if reverse then rev short else short) ?w1 = (None, ys, w2)"
       "length ys = length short" "script (conn w2) = []" "http_calls w2 = http_calls ?w1"
    by auto
  have l2: "users_loop (Suc f) mock_env self reverse p state' (Some 0) w2 = (Returned, [], w2)"
    by (simp add: users_loop_Suc [OF refl])
  have "users_loop fuel mock_env self reverse p state None w = (Returned, ys, w2)"
    unfolding fuel using s y(1) l2 Nil.prems(3) by (simp add: users_loop_Suc [OF refl])
  with y show ?case by simp
next
  case (Cons b bs)
  define f where "f = fuel - 1"
  from Cons.prems(5) have fuel: "fuel = Suc f" "length bs + 2 \<le> f" by (simp_all add: f_def)
  from Cons.prems have sc: "script (conn w) = b # (bs @ [short])" by simp
  from Cons.prems have wf: "\<forall>r \<in> set b. has_user_id r" by simp
  from Cons.prems have lb: "length b = 100" by simp
  from mock_strategy [OF Cons.prems(6-8) sc wf, of reverse 100 state] obtain state' where
    s: "(if reverse then after_strategy else before_strategy) mock_env self 100 state None w =
           (Inr (b, state', None),
            w\<lparr>conn := (conn w)\<lparr>script := bs @ [short]\<rparr>,
              http_calls := http_calls w @
                [UsersCall g i 100 False ((if reverse then After else Before) state)]\<rparr>)"
    by blast
  let ?w1 = "w\<lparr>conn := (conn w)\<lparr>script := bs @ [short]\<rparr>,
              http_calls := http_calls w @
                [UsersCall g i 100 False ((if reverse then After else Before) state)]\<rparr>"
  from Cons.prems have "\<forall>r \<in> set (if reverse then rev b else b). has_user_id r \<and> kept p r"
    by simp
  from mock_yield_all [OF this, of ?w1] obtain ys w2 where
    y: "yield_users mock_env p (if reverse then rev b else b) ?w1 = (None, ys, w2)"
       "length ys = length b" "script (conn w2) = bs @ [short]" "http_calls w2 = http_calls ?w1"
       "events w2 = events w"
    by auto
  from Cons.prems have p: "\<forall>b \<in> set bs. length b = 100"
    "\<forall>b \<in> set (bs @ [short]). \<forall>r \<in> set b. has_user_id r \<and> kept p r" by simp_all
  from Cons.prems(6-8) y(5) have sl: "self_state (events w2 ! self) = Some st"
    "self_guild_id (events w2 ! self) = Some g" "self_id (events w2 ! self) = Some i"
    by simp_all
  from Cons.IH [OF y(3) p(1) Cons.prems(3) p(2) fuel(2) sl, of state'] obtain zs w3 where
    ih: "users_loop f mock_env self reverse p state' None w2 = (Returned, zs, w3)"
        "length zs = 100 * length bs + length short"
        "length (http_calls w3) = length (http_calls w2) + (length bs + 1)"
        "script (conn w3) = []"
    by auto
  have "users_loop fuel mock_env self reverse p state None w = (Returned, ys @ zs, w3)"
    unfolding fuel using s y(1) ih(1) lb by (simp add: users_loop_Suc [OF refl])
  with y ih lb show ?case by simp
qed


text \<open>
  C6. The event reports a false \<open>user_count\<close> and no limit is given, so the limit is
  unbounded. Against the mock transport with a script of \<open>k\<close> batches of exactly 100
  records and a last batch of 37, where every record has a user id and no record is
  dropped by the client-side filter of the call (there is none when no boundary is
  given), the traversal returns after yielding \<open>100 * k + 37\<close> users and sending
  \<open>k + 1\<close> requests: the short batch is the last one requested. Fuel for \<open>k + 2\<close>
  iterations is enough.
\<close>

theorem users_counts_batches:
  assumes "self_user_count (events w ! self) = Some c" and "\<not> truthy c"
    and "self_state (events w ! self) = Some st" and "self_guild_id (events w ! self) = Some g"
    and "self_id (events w ! self) = Some i"
    and "script (conn w) = bs @ [short]" and "\<forall>b \<in> set bs. length b = 100"
    and "length short = 37"
    and "\<forall>b \<in> set (bs @ [short]). \<forall>r \<in> set b. has_user_id r \<and>
           kept (client_filter mock_env (direction oldest_first after) before after) r"
    and "length bs + 2 \<le> fuel"
  shows "\<exists>ys w'. users fuel mock_env self None before after oldest_first w = (Returned, ys, w') \<and>
           length ys = 100 * length bs + 37 \<and>
           length (http_calls w') = length (http_calls w) + (length bs + 1) \<and>
           script (conn w') = []"
proof -
  have l: "length short < 100" using assms(8) by simp
  have u: "users fuel mock_env self None before after oldest_first w =
      users_loop fuel mock_env self (direction oldest_first after)
        (client_filter mock_env (direction oldest_first after) before after)
        (if direction oldest_first after then after else before) None w"
    using assms(1,2) by (simp add: users_def attr_def bind_err_def Let_def)
  from mock_users_loop [OF assms(3-5) assms(6,7) l assms(9,10)] assms(8) u
  show ?thesis by simp
qed

lemma mock_world_script: "script (conn (mock_world r bs)) = bs"
  by code_simp

lemma has_user_id_subscriber: "has_user_id (subscriber n)"
  by (simp add: has_user_id_def subscriber_def bind_err_def getitem_def)

theorem users_counts_batches_witness:
  "fst (users 3 mock_env 0 None None None MISSING
      (mock_world (Inl HTTPException)
         [replicate 100 (subscriber 7), replicate 37 (subscriber 3)])) = Returned \<and>
   length (fst (snd (users 3 mock_env 0 None None None MISSING
      (mock_world (Inl HTTPException)
         [replicate 100 (subscriber 7), replicate 37 (subscriber 3)])))) = 137 \<and>
   length (http_calls (snd (snd (users 3 mock_env 0 None None None MISSING
      (mock_world (Inl HTTPException)
         [replicate 100 (subscriber 7), replicate 37 (subscriber 3)]))))) = 2"
proof -
  let ?bs = "[replicate 100 (subscriber 7)]"
  let ?short = "replicate 37 (subscriber 3)"
  let ?w = "mock_world (Inl HTTPException) [replicate 100 (subscriber 7), replicate 37 (subscriber 3)]"
  have h1: "self_user_count (events ?w ! 0) = Some (JInt 0)" by code_simp
  have h2: "\<not> truthy (JInt 0)" by simp
  have h3: "self_state (events ?w ! 0) = Some 0" by code_simp
  have h4: "self_guild_id (events ?w ! 0) = Some 20" by code_simp
  have h5: "self_id (events ?w ! 0) = Some 10" by code_simp
  have h6: "script (conn ?w) = ?bs @ [?short]" by (simp add: mock_world_script)
  have h7: "\<forall>b \<in> set ?bs. length b = 100" by simp
  have h8: "length ?short = 37" by simp
  have f: "client_filter mock_env (direction MISSING None) None None = None"
    by (simp add: client_filter_def direction_def)
  have h9: "\<forall>b \<in> set (?bs @ [?short]). \<forall>r \<in> set b. has_user_id r \<and>
           kept (client_filter mock_env (direction MISSING None) None None) r"
    unfolding f by (auto simp: has_user_id_subscriber kept_def)
  have h10: "length ?bs + 2 \<le> 3" by simp
  have e: "http_calls ?w = []" by code_simp
  from users_counts_batches [OF h1 h2 h3 h4 h5 h6 h7 h8 h9 h10] e
  show ?thesis by auto
qed

end
